theory Spec2Isabelle
  imports Main "HOL-Library.Sublist" "HOL-Library.AList"
begin

section \<open>The runtime the code reads: clock and identifiers\<close>

text \<open>
  \<^verbatim>\<open>Date.now()\<close> and \<^verbatim>\<open>uuidv4()\<close> are the two ambient sources the code reads. The
  runtime holds what each successive call returns (\<open>clock k\<close> is the k-th reading of the
  clock, \<open>uuid_source k\<close> the k-th identifier) and how many calls were made.
\<close>

record runtime =
  clock :: "nat \<Rightarrow> int"
  ticks :: nat
  uuid_source :: "nat \<Rightarrow> string"
  uuid_count :: nat

definition Date_now :: "runtime \<Rightarrow> int \<times> runtime" where
  "Date_now rt = (clock rt (ticks rt), rt\<lparr>ticks := Suc (ticks rt)\<rparr>)"

definition uuidv4 :: "runtime \<Rightarrow> string \<times> runtime" where
  "uuidv4 rt = (uuid_source rt (uuid_count rt), rt\<lparr>uuid_count := Suc (uuid_count rt)\<rparr>)"

section \<open>JavaScript values and the JSON object\<close>

text \<open>
  Strings are lists of 8-bit characters, read as code units: the embedding covers texts whose
  code units lie below 256. A value is what \<^verbatim>\<open>JSON.parse\<close> can return; \<open>None\<close> of
  \<open>json option\<close> stands for \<^verbatim>\<open>undefined\<close>. A number is a \<open>JNum\<close> when it is an integer
  below \<open>2^53\<close> in magnitude, which a double holds exactly and \<^verbatim>\<open>JSON.stringify\<close> writes
  with all its digits. Every other number is kept as the token that was read (\<open>JFloat\<close>)
  and printed as written: the embedding computes neither the double such a token denotes
  nor the digits \<^verbatim>\<open>JSON.stringify\<close> writes for it, and the results below about printed
  values are stated for values without such numbers. An object is the list of its own
  properties in property order.
\<close>

datatype json = JNull | JBool bool | JNum int | JFloat string | JStr string
  | JArr "json list" | JObj "(string \<times> json) list"

type_synonym jsval = "json option"

datatype js_error = TypeError | SyntaxError

text \<open>Sequencing of computations that may throw.\<close>

definition and_then :: "js_error + 'a \<Rightarrow> ('a \<Rightarrow> js_error + 'b) \<Rightarrow> js_error + 'b" where
  "and_then m f = (case m of Inl e \<Rightarrow> Inl e | Inr x \<Rightarrow> f x)"

fun each :: "('a \<Rightarrow> js_error + 'b) \<Rightarrow> 'a list \<Rightarrow> js_error + 'b list" where
  "each f [] = Inr []"
| "each f (x # xs) = and_then (f x) (\<lambda>y. and_then (each f xs) (\<lambda>ys. Inr (y # ys)))"

subsection \<open>Characters\<close>

text \<open>White space of the JSON grammar: space, tab, line feed, carriage return.\<close>

definition json_ws :: "char \<Rightarrow> bool" where
  "json_ws c = (c = CHR 0x20 \<or> c = CHR 0x09 \<or> c = CHR 0x0A \<or> c = CHR 0x0D)"

text \<open>
  What \<^verbatim>\<open>\s\<close> matches and \<^verbatim>\<open>trim()\<close> strips, among the code units below 256: tab,
  line feed, vertical tab, form feed, carriage return, space, no-break space.
\<close>

definition js_space :: "char \<Rightarrow> bool" where
  "js_space c = (c = CHR 0x09 \<or> c = CHR 0x0A \<or> c = CHR 0x0B \<or> c = CHR 0x0C \<or> c = CHR 0x0D
                \<or> c = CHR 0x20 \<or> c = CHR 0xA0)"

definition trim :: "string \<Rightarrow> string" where
  "trim s = rev (dropWhile js_space (rev (dropWhile js_space s)))"

text \<open>\<^verbatim>\<open>Array.prototype.join\<close> on strings, and \<^verbatim>\<open>String.prototype.includes\<close>.\<close>

fun join :: "string \<Rightarrow> string list \<Rightarrow> string" where
  "join sep [] = []"
| "join sep [x] = x"
| "join sep (x # y # ys) = x @ sep @ join sep (y # ys)"

fun str_includes :: "string \<Rightarrow> string \<Rightarrow> bool" where
  "str_includes [] sub = (sub = [])"
| "str_includes (c # cs) sub = (prefix sub (c # cs) \<or> str_includes cs sub)"

definition is_digit :: "char \<Rightarrow> bool" where
  "is_digit c = (c \<in> set ''0123456789'')"

definition digit_char :: "nat \<Rightarrow> char" where
  "digit_char d = ''0123456789abcdef'' ! d"

definition digit_val :: "char \<Rightarrow> int" where
  "digit_val c = of_char c - 48"

subsection \<open>Numbers\<close>

function digits :: "int \<Rightarrow> string" where
  "digits n =
    (if n < 10 then [digit_char (nat n)] else digits (n div 10) @ [digit_char (nat (n mod 10))])"
  by pat_completeness auto
termination
  by (relation "measure nat") auto

declare digits.simps [simp del]

definition int_of_digits :: "string \<Rightarrow> int" where
  "int_of_digits s = foldl (\<lambda>a c. 10 * a + digit_val c) 0 s"

definition show_int :: "int \<Rightarrow> string" where
  "show_int i = (if i < 0 then CHR ''-'' # digits (- i) else digits i)"

text \<open>
  The number token of the JSON grammar: an optional minus, an integer part without leading
  zero, an optional fraction, an optional exponent. Each function returns the characters
  it took and the rest of the input. A token without fraction and exponent whose integer
  part lies below \<open>2^53 = 9007199254740992\<close> is read as that integer; any other token is
  kept as written.
\<close>

definition lex_int_part :: "string \<Rightarrow> (string \<times> string) option" where
  "lex_int_part s =
    (case s of
       [] \<Rightarrow> None
     | c # r \<Rightarrow>
        if c = CHR ''0'' then Some ([c], r)
        else if is_digit c then Some (takeWhile is_digit s, dropWhile is_digit s)
        else None)"

definition lex_frac :: "string \<Rightarrow> (string \<times> string) option" where
  "lex_frac s =
    (case s of
       [] \<Rightarrow> Some ([], [])
     | c # r \<Rightarrow>
        if c = CHR ''.'' then
          (if takeWhile is_digit r = [] then None
           else Some (c # takeWhile is_digit r, dropWhile is_digit r))
        else Some ([], s))"

definition lex_exp :: "string \<Rightarrow> (string \<times> string) option" where
  "lex_exp s =
    (case s of
       [] \<Rightarrow> Some ([], [])
     | c # r \<Rightarrow>
        if c = CHR ''e'' \<or> c = CHR ''E'' then
          (let (sgn, r1) = (case r of
                              [] \<Rightarrow> ([], r)
                            | d # r' \<Rightarrow> if d = CHR ''+'' \<or> d = CHR ''-'' then ([d], r') else ([], r))
           in if takeWhile is_digit r1 = [] then None
              else Some (c # sgn @ takeWhile is_digit r1, dropWhile is_digit r1))
        else Some ([], s))"

definition lex_number :: "string \<Rightarrow> (json \<times> string) option" where
  "lex_number s =
    (let (sgn, s1) = (case s of
                        [] \<Rightarrow> ([], s)
                      | c # r \<Rightarrow> if c = CHR ''-'' then ([c], r) else ([], s))
     in case lex_int_part s1 of
          None \<Rightarrow> None
        | Some (ip, s2) \<Rightarrow>
           (case lex_frac s2 of
              None \<Rightarrow> None
            | Some (fr, s3) \<Rightarrow>
               (case lex_exp s3 of
                  None \<Rightarrow> None
                | Some (ex, s4) \<Rightarrow>
                   if fr = [] \<and> ex = [] \<and> int_of_digits ip < 9007199254740992
                   then Some (JNum (if sgn = [] then int_of_digits ip else - int_of_digits ip), s4)
                   else Some (JFloat (sgn @ ip @ fr @ ex), s4))))"

subsection \<open>Strings\<close>

definition hex_val :: "char \<Rightarrow> nat option" where
  "hex_val c =
    (if is_digit c then Some (of_char c - 48)
     else if c \<in> set ''abcdef'' then Some (of_char c - 87)
     else if c \<in> set ''ABCDEF'' then Some (of_char c - 55)
     else None)"

definition hex4 :: "char \<Rightarrow> char \<Rightarrow> char \<Rightarrow> char \<Rightarrow> nat option" where
  "hex4 a b c d =
    (case (hex_val a, hex_val b, hex_val c, hex_val d) of
       (Some x, Some y, Some z, Some w) \<Rightarrow> Some (4096 * x + 256 * y + 16 * z + w)
     | _ \<Rightarrow> None)"

definition simple_escape :: "char \<Rightarrow> char option" where
  "simple_escape e =
    (if e = CHR 0x22 then Some (CHR 0x22)
     else if e = CHR 0x5C then Some (CHR 0x5C)
     else if e = CHR ''/'' then Some (CHR ''/'')
     else if e = CHR ''b'' then Some (CHR 0x08)
     else if e = CHR ''f'' then Some (CHR 0x0C)
     else if e = CHR ''n'' then Some (CHR 0x0A)
     else if e = CHR ''r'' then Some (CHR 0x0D)
     else if e = CHR ''t'' then Some (CHR 0x09)
     else None)"

text \<open>
  The string token, read after its opening quote: the decoded string and the input after
  the closing quote. A control character below 0x20 may not stand unescaped. An escape
  \<^verbatim>\<open>\uXXXX\<close> of a code unit from 256 on lies outside the embedding and is refused.
\<close>

fun lex_string :: "string \<Rightarrow> (string \<times> string) option" where
  "lex_string [] = None"
| "lex_string (c # cs) =
    (if c = CHR 0x22 then Some ([], cs)
     else if c = CHR 0x5C then
       (case cs of
          [] \<Rightarrow> None
        | e # r \<Rightarrow>
           if e = CHR ''u'' then
             (case r of
                h1 # h2 # h3 # h4 # r' \<Rightarrow>
                  (case hex4 h1 h2 h3 h4 of
                     None \<Rightarrow> None
                   | Some n \<Rightarrow>
                      if n < 256
                      then map_option (\<lambda>(str, rest). (char_of n # str, rest)) (lex_string r')
                      else None)
              | _ \<Rightarrow> None)
           else
             (case simple_escape e of
                None \<Rightarrow> None
              | Some x \<Rightarrow> map_option (\<lambda>(str, rest). (x # str, rest)) (lex_string r)))
     else if (of_char c :: nat) < 32 then None
     else map_option (\<lambda>(str, rest). (c # str, rest)) (lex_string cs))"

text \<open>\<^verbatim>\<open>QuoteJSONString\<close>: what \<^verbatim>\<open>JSON.stringify\<close> writes for a string.\<close>

definition escape_char :: "char \<Rightarrow> string" where
  "escape_char c =
    (if c = CHR 0x22 then [CHR 0x5C, CHR 0x22]
     else if c = CHR 0x5C then [CHR 0x5C, CHR 0x5C]
     else if c = CHR 0x08 then [CHR 0x5C, CHR ''b'']
     else if c = CHR 0x0C then [CHR 0x5C, CHR ''f'']
     else if c = CHR 0x0A then [CHR 0x5C, CHR ''n'']
     else if c = CHR 0x0D then [CHR 0x5C, CHR ''r'']
     else if c = CHR 0x09 then [CHR 0x5C, CHR ''t'']
     else if (of_char c :: nat) < 32
       then CHR 0x5C # ''u00'' @ [digit_char (of_char c div 16), digit_char (of_char c mod 16)]
     else [c])"

definition quote :: "string \<Rightarrow> string" where
  "quote s = CHR 0x22 # concat (map escape_char s) @ [CHR 0x22]"

subsection \<open>Objects: property order\<close>

text \<open>
  A property whose name is an array index (a canonical numeric string below \<open>2^32 - 1\<close>)
  is enumerated before the others, in ascending numeric order; the others keep the order of
  their creation. Defining a name a second time replaces the value in place.
\<close>

definition is_array_index :: "string \<Rightarrow> bool" where
  "is_array_index k =
    (k \<noteq> [] \<and> list_all is_digit k \<and> (hd k = CHR ''0'' \<longrightarrow> length k = 1)
     \<and> int_of_digits k < 4294967295)"

fun insert_index :: "string \<Rightarrow> json \<Rightarrow> (string \<times> json) list \<Rightarrow> (string \<times> json) list" where
  "insert_index k v [] = [(k, v)]"
| "insert_index k v (p # ps) =
    (if is_array_index (fst p) \<and> int_of_digits (fst p) < int_of_digits k
     then p # insert_index k v ps
     else (k, v) # p # ps)"

definition obj_put :: "string \<Rightarrow> json \<Rightarrow> (string \<times> json) list \<Rightarrow> (string \<times> json) list" where
  "obj_put k v kvs =
    (if k \<in> fst ` set kvs then AList.update k v kvs
     else if is_array_index k then insert_index k v kvs
     else kvs @ [(k, v)])"

subsection \<open>JSON.parse\<close>

definition lex_literal :: "string \<Rightarrow> (json \<times> string) option" where
  "lex_literal s =
    (if prefix ''true'' s then Some (JBool True, drop 4 s)
     else if prefix ''false'' s then Some (JBool False, drop 5 s)
     else if prefix ''null'' s then Some (JNull, drop 4 s)
     else None)"

lemma dropWhile_Cons_shorter: "dropWhile P s = c # r \<Longrightarrow> length r < length s"
  using length_dropWhile_le [of P s] by simp

text \<open>
  The recursive-descent parser of the JSON grammar. Each function returns the value read
  and the rest of the input, or \<open>None\<close> on a syntax error. The tests that a rest is
  shorter than the input hold whenever they are reached; they are what makes the
  recursion well-founded.
\<close>

function parse_value :: "string \<Rightarrow> (json \<times> string) option"
  and parse_elements :: "json list \<Rightarrow> string \<Rightarrow> (json \<times> string) option"
  and parse_members :: "(string \<times> json) list \<Rightarrow> string \<Rightarrow> (json \<times> string) option"
where
  "parse_value s =
    (case dropWhile json_ws s of
       [] \<Rightarrow> None
     | c # r \<Rightarrow>
        if c = CHR ''{'' then
          (case dropWhile json_ws r of
             [] \<Rightarrow> None
           | d # r' \<Rightarrow> if d = CHR ''}'' then Some (JObj [], r') else parse_members [] r)
        else if c = CHR ''['' then
          (case dropWhile json_ws r of
             [] \<Rightarrow> None
           | d # r' \<Rightarrow> if d = CHR '']'' then Some (JArr [], r') else parse_elements [] r)
        else if c = CHR 0x22 then
          map_option (\<lambda>(str, rest). (JStr str, rest)) (lex_string r)
        else if c = CHR ''-'' \<or> is_digit c then lex_number (c # r)
        else lex_literal (c # r))"
| "parse_elements acc s =
    (case parse_value s of
       None \<Rightarrow> None
     | Some (v, r) \<Rightarrow>
        if length r < length s then
          (case dropWhile json_ws r of
             [] \<Rightarrow> None
           | d # r' \<Rightarrow>
              if d = CHR '','' then parse_elements (acc @ [v]) r'
              else if d = CHR '']'' then Some (JArr (acc @ [v]), r')
              else None)
        else None)"
| "parse_members acc s =
    (case dropWhile json_ws s of
       [] \<Rightarrow> None
     | q # r \<Rightarrow>
        if q = CHR 0x22 then
          (case lex_string r of
             None \<Rightarrow> None
           | Some (k, r1) \<Rightarrow>
              (case dropWhile json_ws r1 of
                 [] \<Rightarrow> None
               | c # r2 \<Rightarrow>
                  if c = CHR '':'' \<and> length r2 < length s then
                    (case parse_value r2 of
                       None \<Rightarrow> None
                     | Some (v, r3) \<Rightarrow>
                        if length r3 < length r2 then
                          (case dropWhile json_ws r3 of
                             [] \<Rightarrow> None
                           | d # r4 \<Rightarrow>
                              if d = CHR '','' then parse_members (obj_put k v acc) r4
                              else if d = CHR ''}'' then Some (JObj (obj_put k v acc), r4)
                              else None)
                        else None)
                  else None))
        else None)"
  by pat_completeness auto
termination
  by (relation "measure (\<lambda>x. case x of
            Inl s \<Rightarrow> 2 * length s
          | Inr (Inl (acc, s)) \<Rightarrow> 2 * length s + 1
          | Inr (Inr (acc, s)) \<Rightarrow> 2 * length s + 1)")
     (auto dest: dropWhile_Cons_shorter)

declare parse_value.simps [simp del] parse_elements.simps [simp del]
  parse_members.simps [simp del]

definition JSON_parse :: "string \<Rightarrow> js_error + json" where
  "JSON_parse text =
    (case parse_value text of
       None \<Rightarrow> Inl SyntaxError
     | Some (v, rest) \<Rightarrow> if dropWhile json_ws rest = [] then Inr v else Inl SyntaxError)"

subsection \<open>JSON.stringify\<close>

text \<open>
  \<^verbatim>\<open>JSON.stringify(value, null, gap)\<close> for a value \<^verbatim>\<open>JSON.parse\<close> can return, at the
  indentation \<open>ind\<close>; \<open>gap = 0\<close> is the call without the third argument.
\<close>

fun stringify :: "nat \<Rightarrow> nat \<Rightarrow> json \<Rightarrow> string" where
  "stringify gap ind JNull = ''null''"
| "stringify gap ind (JBool b) = (if b then ''true'' else ''false'')"
| "stringify gap ind (JNum i) = show_int i"
| "stringify gap ind (JFloat lit) = lit"
| "stringify gap ind (JStr s) = quote s"
| "stringify gap ind (JArr xs) =
    (if xs = [] then ''[]''
     else if gap = 0 then ''['' @ join '','' (map (stringify gap ind) xs) @ '']''
     else ''['' @ [CHR 0x0A] @ replicate (ind + gap) CHR '' ''
          @ join ('','' @ [CHR 0x0A] @ replicate (ind + gap) CHR '' '')
              (map (stringify gap (ind + gap)) xs)
          @ [CHR 0x0A] @ replicate ind CHR '' '' @ '']'')"
| "stringify gap ind (JObj kvs) =
    (if kvs = [] then ''{}''
     else if gap = 0
       then ''{'' @ join '','' (map (\<lambda>p. quote (fst p) @ '':'' @ stringify gap ind (snd p)) kvs)
            @ ''}''
     else ''{'' @ [CHR 0x0A] @ replicate (ind + gap) CHR '' ''
          @ join ('','' @ [CHR 0x0A] @ replicate (ind + gap) CHR '' '')
              (map (\<lambda>p. quote (fst p) @ '': '' @ stringify gap (ind + gap) (snd p)) kvs)
          @ [CHR 0x0A] @ replicate ind CHR '' '' @ ''}'')"

definition JSON_stringify :: "json \<Rightarrow> string" where
  "JSON_stringify v = stringify 0 0 v"

definition JSON_stringify_pretty :: "json \<Rightarrow> string" where
  "JSON_stringify_pretty v = stringify 2 0 v"

subsection \<open>Conversions and property reads\<close>

text \<open>
  \<^verbatim>\<open>ToString\<close>, as a template literal, \<^verbatim>\<open>String(x)\<close> and string concatenation apply
  it. In the join of an array, \<^verbatim>\<open>null\<close> gives the empty string.
\<close>

fun js_to_string :: "json \<Rightarrow> string" where
  "js_to_string JNull = ''null''"
| "js_to_string (JBool b) = (if b then ''true'' else ''false'')"
| "js_to_string (JNum i) = show_int i"
| "js_to_string (JFloat lit) = lit"
| "js_to_string (JStr s) = s"
| "js_to_string (JArr xs) =
    join '','' (map (\<lambda>x. if x = JNull then [] else js_to_string x) xs)"
| "js_to_string (JObj kvs) = ''[object Object]''"

definition to_string :: "jsval \<Rightarrow> string" where
  "to_string x = (case x of None \<Rightarrow> ''undefined'' | Some v \<Rightarrow> js_to_string v)"

definition float_is_zero :: "string \<Rightarrow> bool" where
  "float_is_zero lit =
    list_all (\<lambda>c. c \<notin> set ''123456789'') (takeWhile (\<lambda>c. c \<noteq> CHR ''e'' \<and> c \<noteq> CHR ''E'') lit)"

fun truthy :: "jsval \<Rightarrow> bool" where
  "truthy None = False"
| "truthy (Some JNull) = False"
| "truthy (Some (JBool b)) = b"
| "truthy (Some (JNum i)) = (i \<noteq> 0)"
| "truthy (Some (JFloat lit)) = (\<not> float_is_zero lit)"
| "truthy (Some (JStr s)) = (s \<noteq> [])"
| "truthy (Some (JArr xs)) = True"
| "truthy (Some (JObj kvs)) = True"

text \<open>
  A property read \<^verbatim>\<open>x.name\<close>, for the names this program reads (none of them is
  inherited from a prototype): it throws on \<^verbatim>\<open>undefined\<close> and \<^verbatim>\<open>null\<close>, finds an
  own property of an object, and is \<^verbatim>\<open>undefined\<close> on every other value.
\<close>

fun js_get :: "jsval \<Rightarrow> string \<Rightarrow> js_error + jsval" where
  "js_get None k = Inl TypeError"
| "js_get (Some JNull) k = Inl TypeError"
| "js_get (Some (JObj kvs)) k = Inr (map_of kvs k)"
| "js_get (Some v) k = Inr None"

section \<open>Tool protocol (adapter/tool-protocol.js)\<close>

text \<open>
  The request, as \<^verbatim>\<open>OpenAIChatRequest\<close> types it: \<^verbatim>\<open>messages\<close> is an array (the route
  handler checks it before it builds the request); every other field is whatever the JSON
  body held, \<open>None\<close> when absent.
\<close>

record OpenAIChatRequest =
  req_messages :: "json list"
  req_tools :: jsval
  req_tool_choice :: jsval
  req_model :: jsval
  req_user :: jsval
  req_stream :: jsval

definition hasTools :: "OpenAIChatRequest \<Rightarrow> bool" where
  "hasTools request =
    (case req_tools request of
       Some (JArr ts) \<Rightarrow> ts \<noteq> [] \<and> req_tool_choice request \<noteq> Some (JStr ''none'')
     | _ \<Rightarrow> False)"

subsection \<open>buildToolInstructions\<close>

definition tool_definition :: "json \<Rightarrow> js_error + string" where
  "tool_definition tool =
    and_then (js_get (Some tool) ''function'') (\<lambda>fn.
    and_then (js_get fn ''parameters'') (\<lambda>parameters.
    and_then (js_get fn ''name'') (\<lambda>name.
    and_then (js_get fn ''description'') (\<lambda>description.
      Inr (''<tool>\<newline><name>'' @ to_string name @ ''</name>\<newline><description>''
           @ (if truthy description then to_string description else [])
           @ ''</description>\<newline><parameters>''
           @ (case parameters of
                Some p \<Rightarrow> if truthy parameters then JSON_stringify_pretty p else ''{}''
              | None \<Rightarrow> ''{}'')
           @ ''</parameters>\<newline></tool>'')))))"

definition tool_call_instructions :: string where
  \<open>tool_call_instructions =
    ''<tool_call_instructions>\<newline>'' @
    ''You have access to the tools listed above. When you need to use a tool, output a tool call using the following XML format:\<newline>'' @
    ''\<newline>'' @
    ''<tool_call>\<newline>'' @
    ''{"name": "tool_name", "arguments": {"param1": "value1"}}\<newline>'' @
    ''</tool_call>\<newline>'' @
    ''\<newline>'' @
    ''Rules:\<newline>'' @
    ''- You may make multiple tool calls in a single response by using multiple <tool_call> blocks.\<newline>'' @
    ''- The JSON inside <tool_call> must have "name" (string) and "arguments" (object) fields.\<newline>'' @
    ''- Only call tools that are listed in <tools_available>.\<newline>'' @
    ''- If you don'' @ [CHR 0x27] @ ''t need to use any tool, respond normally without <tool_call> tags.\<newline>'' @
    ''- When making a tool call, you may include brief text before the tool call(s) to explain your reasoning, but do not include text after the tool call(s).\<newline>'' @
    ''</tool_call_instructions>''\<close>

definition buildToolInstructions :: "json list \<Rightarrow> js_error + string" where
  "buildToolInstructions tools =
    and_then (each tool_definition tools) (\<lambda>toolDefs.
      Inr (''<tools_available>\<newline>'' @ join ''\<newline>'' toolDefs
           @ ''\<newline></tools_available>\<newline>\<newline>'' @ tool_call_instructions))"

subsection \<open>parseToolCalls\<close>

definition OPEN_TAG :: string where
  "OPEN_TAG = ''<tool_call>''"

definition CLOSE_TAG :: string where
  "CLOSE_TAG = ''</tool_call>''"

text \<open>
  The pattern \<^verbatim>\<open>/<tool_call>\s*(\{[\s\S]*?\})\s*<\/tool_call>/g\<close>. After the opening
  brace the lazy group grows one character at a time, up to the first closing brace that
  optional white space and the closing tag follow: \<open>lazy_body\<close> returns the group from
  behind the opening brace, and the text after the match.
\<close>

fun lazy_body :: "string \<Rightarrow> (string \<times> string) option" where
  "lazy_body [] = None"
| "lazy_body (c # cs) =
    (if c = CHR ''}'' \<and> prefix CLOSE_TAG (dropWhile js_space cs)
     then Some ([c], drop (length CLOSE_TAG) (dropWhile js_space cs))
     else map_option (\<lambda>(body, rest). (c # body, rest)) (lazy_body cs))"

text \<open>A match that starts at the head of the text: group 1 and the text after the match.\<close>

definition match_here :: "string \<Rightarrow> (string \<times> string) option" where
  "match_here t =
    (if prefix OPEN_TAG t then
       (case dropWhile js_space (drop (length OPEN_TAG) t) of
          [] \<Rightarrow> None
        | c # r \<Rightarrow>
           if c = CHR ''{'' then map_option (\<lambda>(body, rest). (c # body, rest)) (lazy_body r)
           else None)
     else None)"

text \<open>\<^verbatim>\<open>regex.exec(text)\<close> from \<^verbatim>\<open>lastIndex\<close> on: the leftmost match.\<close>

fun regex_exec :: "string \<Rightarrow> (string \<times> string) option" where
  "regex_exec [] = None"
| "regex_exec (c # cs) =
    (case match_here (c # cs) of
       Some m \<Rightarrow> Some m
     | None \<Rightarrow> regex_exec cs)"

lemma lazy_body_shorter: "lazy_body t = Some (body, rest) \<Longrightarrow> length rest < length t"
proof (induction t arbitrary: body)
  case Nil
  then show ?case by simp
next
  case (Cons c cs)
  show ?case
  proof (cases "c = CHR ''}'' \<and> prefix CLOSE_TAG (dropWhile js_space cs)")
    case True
    with Cons.prems have "rest = drop (length CLOSE_TAG) (dropWhile js_space cs)" by simp
    then have "length rest \<le> length cs"
      using length_dropWhile_le [of js_space cs] by simp
    then show ?thesis by simp
  next
    case False
    with Cons.prems obtain b where "lazy_body cs = Some (b, rest)" by auto
    with Cons.IH have "length rest < length cs" by blast
    then show ?thesis by simp
  qed
qed

lemma match_here_shorter: "match_here t = Some (body, rest) \<Longrightarrow> length rest < length t"
proof -
  assume m: "match_here t = Some (body, rest)"
  then obtain c r b where d: "dropWhile js_space (drop (length OPEN_TAG) t) = c # r"
    and l: "lazy_body r = Some (b, rest)"
    by (auto simp: match_here_def split: if_splits list.splits)
  from d have "length r < length (drop (length OPEN_TAG) t)" by (rule dropWhile_Cons_shorter)
  with lazy_body_shorter [OF l] show ?thesis by simp
qed

lemma regex_exec_shorter: "regex_exec t = Some (body, rest) \<Longrightarrow> length rest < length t"
proof (induction t)
  case Nil
  then show ?case by simp
next
  case (Cons c cs)
  show ?case
  proof (cases "match_here (c # cs)")
    case None
    with Cons show ?thesis by fastforce
  next
    case (Some m)
    with Cons.prems have "match_here (c # cs) = Some (body, rest)" by simp
    then show ?thesis by (rule match_here_shorter)
  qed
qed

text \<open>
  A tool call of the result. \<^verbatim>\<open>id\<close> is the parsed body's \<^verbatim>\<open>id\<close> when that is truthy,
  whatever its type, and a minted string otherwise; \<^verbatim>\<open>name\<close> is the body's \<^verbatim>\<open>name\<close>,
  \<^verbatim>\<open>undefined\<close> when the body has none; \<^verbatim>\<open>arguments\<close> is a string, or \<^verbatim>\<open>undefined\<close>
  when the body has no \<^verbatim>\<open>arguments\<close>.
\<close>

record ToolCall =
  call_id :: json
  call_type :: string
  call_name :: jsval
  call_arguments :: "string option"

text \<open>\<^verbatim>\<open>`call_${uuidv4().replace(/-/g, "").slice(0, 24)}`\<close>\<close>

definition mint_call_id :: "runtime \<Rightarrow> string \<times> runtime" where
  "mint_call_id rt =
    (let (u, rt') = uuidv4 rt in (''call_'' @ take 24 (filter (\<lambda>c. c \<noteq> CHR ''-'') u), rt'))"

text \<open>The body of the \<^verbatim>\<open>try\<close> block, once \<^verbatim>\<open>JSON.parse\<close> has returned.\<close>

definition make_tool_call :: "json \<Rightarrow> runtime \<Rightarrow> js_error + (ToolCall \<times> runtime)" where
  "make_tool_call parsed rt =
    and_then (js_get (Some parsed) ''id'') (\<lambda>pid.
      let (cid, rt') = (case pid of
                          Some v \<Rightarrow> if truthy pid then (v, rt)
                                    else (let (m, rt1) = mint_call_id rt in (JStr m, rt1))
                        | None \<Rightarrow> (let (m, rt1) = mint_call_id rt in (JStr m, rt1)))
      in
    and_then (js_get (Some parsed) ''name'') (\<lambda>name.
    and_then (js_get (Some parsed) ''arguments'') (\<lambda>arguments.
      Inr (\<lparr>call_id = cid, call_type = ''function'', call_name = name,
             call_arguments = (case arguments of
                                 None \<Rightarrow> None
                               | Some (JStr s) \<Rightarrow> Some s
                               | Some a \<Rightarrow> Some (JSON_stringify a))\<rparr>, rt'))))"

text \<open>
  The \<^verbatim>\<open>while\<close> loop over the matches. Whatever the \<^verbatim>\<open>try\<close> block throws is caught,
  and the loop goes on behind the match.
\<close>

function tool_call_loop :: "string \<Rightarrow> runtime \<Rightarrow> ToolCall list \<times> runtime" where
  "tool_call_loop text rt =
    (case regex_exec text of
       None \<Rightarrow> ([], rt)
     | Some (body, rest) \<Rightarrow>
        (case and_then (JSON_parse body) (\<lambda>parsed. make_tool_call parsed rt) of
           Inl e \<Rightarrow> tool_call_loop rest rt
         | Inr (tc, rt') \<Rightarrow>
            (let (tcs, rt'') = tool_call_loop rest rt' in (tc # tcs, rt''))))"
  by pat_completeness auto
termination
  by (relation "measure (\<lambda>(text, rt). length text)") (auto dest: regex_exec_shorter)

declare tool_call_loop.simps [simp del]

text \<open>
  \<^verbatim>\<open>text.replace(/<tool_call>[\s\S]*?<\/tool_call>/g, "")\<close>: at an opening tag, the
  text up to the first closing tag behind it is dropped; where no closing tag follows, the
  character stays.
\<close>

fun find_close :: "string \<Rightarrow> string option" where
  "find_close [] = None"
| "find_close (c # cs) =
    (if prefix CLOSE_TAG (c # cs) then Some (drop (length CLOSE_TAG) (c # cs))
     else find_close cs)"

lemma find_close_shorter: "find_close t = Some rest \<Longrightarrow> length rest < length t"
  by (induction t) (auto simp: CLOSE_TAG_def split: if_splits)

function strip_blocks :: "string \<Rightarrow> string" where
  "strip_blocks [] = []"
| "strip_blocks (c # cs) =
    (if prefix OPEN_TAG (c # cs) then
       (case find_close (drop (length OPEN_TAG) (c # cs)) of
          Some rest \<Rightarrow> strip_blocks rest
        | None \<Rightarrow> c # strip_blocks cs)
     else c # strip_blocks cs)"
  by pat_completeness auto
termination
proof (relation "measure length")
  show "wf (measure length)" by simp
next
  fix c :: char and cs rest
  assume "find_close (drop (length OPEN_TAG) (c # cs)) = Some rest"
  then have "length rest < length (drop (length OPEN_TAG) (c # cs))"
    by (rule find_close_shorter)
  then show "(rest, c # cs) \<in> measure length" by simp
qed simp_all

record ParsedToolCalls =
  toolCalls :: "ToolCall list"
  textContent :: "string option"

definition parseToolCalls :: "string \<Rightarrow> runtime \<Rightarrow> ParsedToolCalls \<times> runtime" where
  "parseToolCalls text rt =
    (let (tcs, rt') = tool_call_loop text rt;
         stripped = trim (strip_blocks text)
     in (\<lparr>toolCalls = tcs, textContent = (if stripped = [] then None else Some stripped)\<rparr>, rt'))"

subsection \<open>formatToolResults\<close>

definition tool_result :: "json \<Rightarrow> js_error + string" where
  "tool_result msg =
    and_then (js_get (Some msg) ''content'') (\<lambda>content.
    and_then (js_get (Some msg) ''tool_call_id'') (\<lambda>tool_call_id.
      Inr (''<tool_result>\<newline><tool_call_id>''
           @ (if truthy tool_call_id then to_string tool_call_id else ''unknown'')
           @ ''</tool_call_id>\<newline><output>''
           @ (case content of
                Some (JStr s) \<Rightarrow> s
              | Some v \<Rightarrow> JSON_stringify v
              | None \<Rightarrow> ''undefined'')
           @ ''</output>\<newline></tool_result>'')))"

definition formatToolResults :: "json list \<Rightarrow> js_error + string" where
  "formatToolResults toolMessages =
    and_then (each tool_result toolMessages) (\<lambda>results.
      Inr (''<tool_results>\<newline>'' @ join ''\<newline>'' results @ ''\<newline></tool_results>''))"

section \<open>Request translator: model resolution (adapter/openai-to-cli.js)\<close>

text \<open>
  \<^verbatim>\<open>MODEL_MAP\<close> is an object literal; its own properties are listed in source order.
\<close>

definition MODEL_MAP :: "(string \<times> string) list" where
  "MODEL_MAP =
    [(''claude-opus-4'', ''opus''),
     (''claude-opus-4-6'', ''opus''),
     (''claude-sonnet-4'', ''sonnet''),
     (''claude-sonnet-4-5'', ''sonnet''),
     (''claude-haiku-4'', ''haiku''),
     (''claude-code-cli/claude-opus-4'', ''opus''),
     (''claude-code-cli/claude-opus-4-6'', ''opus''),
     (''claude-code-cli/claude-sonnet-4'', ''sonnet''),
     (''claude-code-cli/claude-haiku-4'', ''haiku''),
     (''openai/claude-opus-4'', ''opus''),
     (''openai/claude-opus-4-6'', ''opus''),
     (''openai/claude-sonnet-4'', ''sonnet''),
     (''openai/claude-sonnet-4-5'', ''sonnet''),
     (''openai/claude-haiku-4'', ''haiku''),
     (''opus'', ''opus''),
     (''sonnet'', ''sonnet''),
     (''haiku'', ''haiku'')]"

text \<open>
  A property read \<^verbatim>\<open>MODEL_MAP[model]\<close> on an object literal also finds the members the
  object inherits from \<^verbatim>\<open>Object.prototype\<close>; every one of them is a function or an
  object, hence truthy.
\<close>

definition Object_prototype_members :: "string list" where
  "Object_prototype_members =
    [''constructor'', ''__defineGetter__'', ''__defineSetter__'', ''hasOwnProperty'',
     ''__lookupGetter__'', ''__lookupSetter__'', ''isPrototypeOf'', ''propertyIsEnumerable'',
     ''toString'', ''valueOf'', ''__proto__'', ''toLocaleString'']"

text \<open>What \<^verbatim>\<open>extractModel\<close> can return: an alias string of the table, or an inherited member.\<close>

datatype model_value = Alias string | Inherited string

definition MODEL_MAP_get :: "string \<Rightarrow> model_value option" where
  "MODEL_MAP_get k =
    (case map_of MODEL_MAP k of
       Some a \<Rightarrow> Some (Alias a)
     | None \<Rightarrow> (if k \<in> set Object_prototype_members then Some (Inherited k) else None))"

text \<open>\<^verbatim>\<open>model.replace(/^(claude-code-cli|openai)\//, "")\<close>\<close>

definition strip_provider :: "string \<Rightarrow> string" where
  "strip_provider model =
    (if prefix ''claude-code-cli/'' model then drop (length ''claude-code-cli/'') model
     else if prefix ''openai/'' model then drop (length ''openai/'') model
     else model)"

definition extractModel :: "string \<Rightarrow> model_value" where
  "extractModel model =
    (case MODEL_MAP_get model of
       Some v \<Rightarrow> v
     | None \<Rightarrow>
        (let stripped = strip_provider model in
         case MODEL_MAP_get stripped of
           Some v \<Rightarrow> v
         | None \<Rightarrow> Alias ''opus''))"

text \<open>
  The resolution as the specification words it: on a miss, whatever stands before the
  first slash is taken for a provider prefix, stripped, and the lookup retried once.
\<close>

definition strip_any_prefix :: "string \<Rightarrow> string" where
  "strip_any_prefix model =
    (if CHR ''/'' \<in> set model then tl (dropWhile (\<lambda>c. c \<noteq> CHR ''/'') model) else model)"

definition extractModel_spec :: "string \<Rightarrow> string" where
  "extractModel_spec model =
    (case map_of MODEL_MAP model of
       Some a \<Rightarrow> a
     | None \<Rightarrow>
        (case map_of MODEL_MAP (strip_any_prefix model) of
           Some a \<Rightarrow> a
         | None \<Rightarrow> ''opus''))"

text \<open>
  \<^verbatim>\<open>extractModel\<close> on whatever the request holds as \<^verbatim>\<open>model\<close>. A value that is not a
  string is converted to a property key by the table read; on a miss the call of
  \<^verbatim>\<open>model.replace\<close> throws, since only a string has that method.
\<close>

definition extractModel_of :: "jsval \<Rightarrow> js_error + model_value" where
  "extractModel_of m =
    (case m of
       Some (JStr s) \<Rightarrow> Inr (extractModel s)
     | _ \<Rightarrow> (case MODEL_MAP_get (to_string m) of
               Some v \<Rightarrow> Inr v
             | None \<Rightarrow> Inl TypeError))"

subsection \<open>extractText\<close>

text \<open>An element in \<^verbatim>\<open>Array.prototype.join\<close>: nothing for \<^verbatim>\<open>undefined\<close> and \<^verbatim>\<open>null\<close>.\<close>

definition join_element :: "jsval \<Rightarrow> string" where
  "join_element x = (case x of None \<Rightarrow> [] | Some JNull \<Rightarrow> [] | Some v \<Rightarrow> js_to_string v)"

text \<open>
  \<^verbatim>\<open>extractText\<close>, followed by the conversion to a string that each of its uses applies
  (a template literal, a concatenation, the final join). The value returned by the source
  is a string except when an object's \<^verbatim>\<open>text\<close> property is a truthy value of another
  type.
\<close>

definition extractText :: "jsval \<Rightarrow> js_error + string" where
  "extractText content =
    (case content of
       Some (JStr s) \<Rightarrow> Inr s
     | Some (JArr parts) \<Rightarrow>
         and_then (each (\<lambda>part. js_get (Some part) ''type'') parts) (\<lambda>types.
         and_then (each (\<lambda>part. js_get (Some part) ''text'')
                     (map fst (filter (\<lambda>(part, ty). ty = Some (JStr ''text'')) (zip parts types))))
           (\<lambda>texts. Inr (join ''\<newline>'' (map join_element texts))))
     | Some (JObj kvs) \<Rightarrow>
         (if truthy (map_of kvs ''text'') then Inr (to_string (map_of kvs ''text''))
          else Inr (JSON_stringify (JObj kvs)))
     | _ \<Rightarrow> Inr (to_string content))"

subsection \<open>messagesToPrompt\<close>

text \<open>
  One \<^verbatim>\<open><tool_call>\<close> block of an assistant message: the object literal reads
  \<^verbatim>\<open>tc.id\<close>, \<^verbatim>\<open>tc.function.name\<close> and \<^verbatim>\<open>tc.function.arguments\<close> in this order and
  parses the last; \<^verbatim>\<open>JSON.stringify\<close> leaves out a property whose value is
  \<^verbatim>\<open>undefined\<close>.
\<close>

definition tool_call_block :: "json \<Rightarrow> js_error + string" where
  "tool_call_block tc =
    and_then (js_get (Some tc) ''id'') (\<lambda>tid.
    and_then (js_get (Some tc) ''function'') (\<lambda>fn.
    and_then (js_get fn ''name'') (\<lambda>name.
    and_then (js_get fn ''arguments'') (\<lambda>arguments.
    and_then (JSON_parse (to_string arguments)) (\<lambda>parsed.
      Inr (''<tool_call>\<newline>''
           @ JSON_stringify_pretty
               (JObj ((case tid of None \<Rightarrow> [] | Some v \<Rightarrow> [(''id'', v)])
                      @ (case name of None \<Rightarrow> [] | Some v \<Rightarrow> [(''name'', v)])
                      @ [(''arguments'', parsed)]))
           @ ''\<newline></tool_call>\<newline>''))))))"

definition assistant_part :: "json \<Rightarrow> js_error + string" where
  "assistant_part msg =
    and_then (js_get (Some msg) ''tool_calls'') (\<lambda>tool_calls.
    and_then (js_get (Some msg) ''content'') (\<lambda>content.
      case tool_calls of
        Some (JArr (tc # tcs)) \<Rightarrow>
          and_then (if truthy content
                    then and_then (extractText content) (\<lambda>text. Inr (text @ ''\<newline>''))
                    else Inr []) (\<lambda>lead.
          and_then (each tool_call_block (tc # tcs)) (\<lambda>blocks.
            Inr (''<previous_response>\<newline>'' @ trim (lead @ concat blocks)
                 @ ''\<newline></previous_response>\<newline>'')))
      | _ \<Rightarrow>
          and_then (extractText content) (\<lambda>text.
            Inr (''<previous_response>\<newline>'' @ text @ ''\<newline></previous_response>\<newline>''))))"

text \<open>
  How many of the messages that follow a \<^verbatim>\<open>tool\<close> message the inner \<^verbatim>\<open>while\<close> loop
  takes: it reads the \<^verbatim>\<open>role\<close> of the next message until one is not \<^verbatim>\<open>"tool"\<close>.
\<close>

fun tool_run :: "json list \<Rightarrow> js_error + nat" where
  "tool_run [] = Inr 0"
| "tool_run (m # ms) =
    and_then (js_get (Some m) ''role'') (\<lambda>role.
      if role = Some (JStr ''tool'') then and_then (tool_run ms) (\<lambda>n. Inr (Suc n)) else Inr 0)"

text \<open>The \<^verbatim>\<open>for\<close> loop: the parts pushed, in order.\<close>

function message_parts :: "json list \<Rightarrow> js_error + string list" where
  "message_parts [] = Inr []"
| "message_parts (msg # rest) =
    and_then (js_get (Some msg) ''role'') (\<lambda>role.
      if role = Some (JStr ''system'') then
        and_then (js_get (Some msg) ''content'') (\<lambda>content.
        and_then (extractText content) (\<lambda>text.
        and_then (message_parts rest) (\<lambda>parts.
          Inr ((''<system>\<newline>'' @ text @ ''\<newline></system>\<newline>'') # parts))))
      else if role = Some (JStr ''user'') then
        and_then (js_get (Some msg) ''content'') (\<lambda>content.
        and_then (extractText content) (\<lambda>text.
        and_then (message_parts rest) (\<lambda>parts. Inr (text # parts))))
      else if role = Some (JStr ''assistant'') then
        and_then (assistant_part msg) (\<lambda>part.
        and_then (message_parts rest) (\<lambda>parts. Inr (part # parts)))
      else if role = Some (JStr ''tool'') then
        and_then (tool_run rest) (\<lambda>n.
        and_then (formatToolResults (msg # take n rest)) (\<lambda>part.
        and_then (message_parts (drop n rest)) (\<lambda>parts. Inr (part # parts))))
      else message_parts rest)"
  by pat_completeness auto
termination
  by (relation "measure length") auto

declare message_parts.simps(2) [simp del]

definition messagesToPrompt :: "json list \<Rightarrow> json list option \<Rightarrow> js_error + string" where
  "messagesToPrompt messages tools =
    and_then (case tools of
                None \<Rightarrow> Inr []
              | Some ts \<Rightarrow>
                 if ts \<noteq> [] then and_then (buildToolInstructions ts) (\<lambda>instr. Inr [instr])
                 else Inr []) (\<lambda>first.
    and_then (message_parts messages) (\<lambda>parts.
      Inr (trim (join ''\<newline>'' (first @ parts)))))"

subsection \<open>openaiToCli\<close>

record CliInput =
  cli_prompt :: string
  cli_model :: model_value
  cli_sessionId :: jsval
  cli_hasTools :: bool

definition effective_tools :: "OpenAIChatRequest \<Rightarrow> json list option" where
  "effective_tools request =
    (if hasTools request
     then (case req_tools request of Some (JArr ts) \<Rightarrow> Some ts | _ \<Rightarrow> None)
     else None)"

definition openaiToCli :: "OpenAIChatRequest \<Rightarrow> js_error + CliInput" where
  "openaiToCli request =
    (let tools = effective_tools request in
     and_then (messagesToPrompt (req_messages request) tools) (\<lambda>prompt.
     and_then (extractModel_of (req_model request)) (\<lambda>m.
       Inr \<lparr>cli_prompt = prompt, cli_model = m, cli_sessionId = req_user request,
            cli_hasTools = (tools \<noteq> None)\<rparr>)))"

section \<open>Response builder (adapter/cli-to-openai.js)\<close>

text \<open>
  The terminal \<^verbatim>\<open>result\<close> event, as \<^verbatim>\<open>ClaudeCliResult\<close> types it, with the parts the
  builder reads: the result string, the token counts of \<^verbatim>\<open>usage\<close> (the builder allows
  for their absence) and the keys of \<^verbatim>\<open>modelUsage\<close> in property order.
\<close>

record ClaudeCliResult =
  result_text :: string
  result_usage :: "(int option \<times> int option) option"
  result_modelUsage :: "string list option"

record Usage =
  prompt_tokens :: int
  completion_tokens :: int
  total_tokens :: int

record ChatMessage =
  msg_role :: string
  msg_content :: "string option"
  msg_tool_calls :: "ToolCall list option"

record ChatCompletion =
  cmpl_id :: string
  cmpl_object :: string
  cmpl_created :: int
  cmpl_model :: string
  cmpl_message :: ChatMessage
  cmpl_finish_reason :: string
  cmpl_usage :: Usage

text \<open>
  A chunk has one choice, of index 0; \<open>delta_tool_calls\<close> holds each entry's index and
  call. An absent field of the delta is \<open>None\<close>.
\<close>

record ChatChunk =
  chunk_id :: string
  chunk_object :: string
  chunk_created :: int
  chunk_model :: string
  delta_role :: "string option"
  delta_content :: "string option"
  delta_tool_calls :: "(nat \<times> ToolCall) list option"
  chunk_finish_reason :: "string option"

text \<open>\<^verbatim>\<open>Math.floor(Date.now() / 1000)\<close>\<close>

definition now_seconds :: "runtime \<Rightarrow> int" where
  "now_seconds rt = fst (Date_now rt) div 1000"

definition normalizeModelName :: "string \<Rightarrow> string" where
  "normalizeModelName m =
    (if str_includes m ''opus'' then ''claude-opus-4''
     else if str_includes m ''sonnet'' then ''claude-sonnet-4''
     else if str_includes m ''haiku'' then ''claude-haiku-4''
     else m)"

definition createDoneChunk :: "string \<Rightarrow> string \<Rightarrow> runtime \<Rightarrow> ChatChunk" where
  "createDoneChunk requestId m rt =
    \<lparr>chunk_id = ''chatcmpl-'' @ requestId, chunk_object = ''chat.completion.chunk'',
     chunk_created = now_seconds rt, chunk_model = normalizeModelName m,
     delta_role = None, delta_content = None, delta_tool_calls = None,
     chunk_finish_reason = Some ''stop''\<rparr>"

text \<open>
  The model name of a result: the first key of \<^verbatim>\<open>modelUsage\<close>, the default when the
  result has no \<^verbatim>\<open>modelUsage\<close>. With an empty \<^verbatim>\<open>modelUsage\<close> the first key is
  \<^verbatim>\<open>undefined\<close>, and \<^verbatim>\<open>normalizeModelName\<close> throws on it.
\<close>

definition result_model :: "ClaudeCliResult \<Rightarrow> js_error + string" where
  "result_model r =
    (case result_modelUsage r of
       None \<Rightarrow> Inr (normalizeModelName ''claude-sonnet-4'')
     | Some [] \<Rightarrow> Inl TypeError
     | Some (k # ks) \<Rightarrow> Inr (normalizeModelName k))"

definition result_usage_of :: "ClaudeCliResult \<Rightarrow> Usage" where
  "result_usage_of r =
    (let inp = (case result_usage r of Some (Some n, _) \<Rightarrow> n | _ \<Rightarrow> 0);
         out = (case result_usage r of Some (_, Some n) \<Rightarrow> n | _ \<Rightarrow> 0)
     in \<lparr>prompt_tokens = inp, completion_tokens = out, total_tokens = inp + out\<rparr>)"

definition cliResultToOpenai ::
  "ClaudeCliResult \<Rightarrow> string \<Rightarrow> runtime \<Rightarrow> js_error + ChatCompletion" where
  "cliResultToOpenai r requestId rt =
    and_then (result_model r) (\<lambda>m.
      Inr \<lparr>cmpl_id = ''chatcmpl-'' @ requestId, cmpl_object = ''chat.completion'',
           cmpl_created = now_seconds rt, cmpl_model = m,
           cmpl_message = \<lparr>msg_role = ''assistant'', msg_content = Some (result_text r),
                            msg_tool_calls = None\<rparr>,
           cmpl_finish_reason = ''stop'', cmpl_usage = result_usage_of r\<rparr>)"

text \<open>\<^verbatim>\<open>cliResultToOpenaiWithTools\<close> parses \<^verbatim>\<open>result.result || ""\<close>.\<close>

definition cliResultToOpenaiWithTools ::
  "ClaudeCliResult \<Rightarrow> string \<Rightarrow> runtime \<Rightarrow> js_error + ChatCompletion" where
  "cliResultToOpenaiWithTools r requestId rt =
    (let (parsed, rt') = parseToolCalls (result_text r) rt in
     if toolCalls parsed \<noteq> [] then
       and_then (result_model r) (\<lambda>m.
         Inr \<lparr>cmpl_id = ''chatcmpl-'' @ requestId, cmpl_object = ''chat.completion'',
              cmpl_created = now_seconds rt', cmpl_model = m,
              cmpl_message = \<lparr>msg_role = ''assistant'', msg_content = textContent parsed,
                               msg_tool_calls = Some (toolCalls parsed)\<rparr>,
              cmpl_finish_reason = ''tool_calls'', cmpl_usage = result_usage_of r\<rparr>)
     else cliResultToOpenai r requestId rt')"

text \<open>
  \<^verbatim>\<open>buildToolCallChunks\<close>: an optional text chunk, one chunk for each tool call, and the
  final chunk with the finish reason.
\<close>

definition tool_call_chunk ::
  "string \<Rightarrow> string \<Rightarrow> int \<Rightarrow> string option \<Rightarrow> nat \<times> ToolCall \<Rightarrow> ChatChunk" where
  "tool_call_chunk requestId m now txt itc =
    \<lparr>chunk_id = ''chatcmpl-'' @ requestId, chunk_object = ''chat.completion.chunk'',
     chunk_created = now, chunk_model = m,
     delta_role = (if fst itc = 0 \<and> (txt = None \<or> txt = Some []) then Some ''assistant'' else None),
     delta_content = None,
     delta_tool_calls = Some [(fst itc, \<lparr>call_id = call_id (snd itc), call_type = ''function'',
                                         call_name = call_name (snd itc),
                                         call_arguments = call_arguments (snd itc)\<rparr>)],
     chunk_finish_reason = None\<rparr>"

definition buildToolCallChunks ::
  "ToolCall list \<Rightarrow> string option \<Rightarrow> string \<Rightarrow> string \<Rightarrow> runtime \<Rightarrow> ChatChunk list" where
  "buildToolCallChunks tcs txt requestId m rt =
    (let now = now_seconds rt; normalizedModel = normalizeModelName m
     in (case txt of
           None \<Rightarrow> []
         | Some t \<Rightarrow>
            if t \<noteq> [] then
              [\<lparr>chunk_id = ''chatcmpl-'' @ requestId, chunk_object = ''chat.completion.chunk'',
                chunk_created = now, chunk_model = normalizedModel,
                delta_role = Some ''assistant'', delta_content = Some t,
                delta_tool_calls = None, chunk_finish_reason = None\<rparr>]
            else [])
        @ map (tool_call_chunk requestId normalizedModel now txt) (enumerate 0 tcs)
        @ [\<lparr>chunk_id = ''chatcmpl-'' @ requestId, chunk_object = ''chat.completion.chunk'',
             chunk_created = now, chunk_model = normalizedModel,
             delta_role = None, delta_content = None, delta_tool_calls = None,
             chunk_finish_reason = Some ''tool_calls''\<rparr>])"

section \<open>Subprocess driver (subprocess/manager.js)\<close>

text \<open>
  The fields of \<^verbatim>\<open>ClaudeSubprocess\<close>. The child process is represented by the list of
  signals passed to its \<^verbatim>\<open>kill\<close>, \<^verbatim>\<open>timeoutId\<close> by the handle \<^verbatim>\<open>setTimeout\<close>
  returned. Two more components stand for the event loop and the emitter: whether the
  timer set by \<^verbatim>\<open>start\<close> can still fire, and the \<^verbatim>\<open>error\<close> events emitted so far.
\<close>

record ClaudeSubprocess =
  process :: "string list option"
  buffer :: string
  timeoutId :: "nat option"
  isKilled :: bool
  timer_pending :: bool
  error_events :: "string list"

definition new_ClaudeSubprocess :: ClaudeSubprocess where
  "new_ClaudeSubprocess =
    \<lparr>process = None, buffer = [], timeoutId = None, isKilled = False,
     timer_pending = False, error_events = []\<rparr>"

text \<open>
  \<^verbatim>\<open>start\<close> when \<^verbatim>\<open>spawn\<close> succeeds: the child exists, no signal was sent, the
  timer is armed.
\<close>

definition start_ok :: "ClaudeSubprocess \<Rightarrow> ClaudeSubprocess" where
  "start_ok d = d\<lparr>process := Some [], timeoutId := Some 1, timer_pending := True\<rparr>"

definition clearTimeout :: "ClaudeSubprocess \<Rightarrow> ClaudeSubprocess" where
  "clearTimeout d =
    (if timeoutId d \<noteq> None then d\<lparr>timer_pending := False, timeoutId := None\<rparr> else d)"

definition process_kill :: "string \<Rightarrow> ClaudeSubprocess \<Rightarrow> ClaudeSubprocess" where
  "process_kill signal d = d\<lparr>process := map_option (\<lambda>sent. sent @ [signal]) (process d)\<rparr>"

text \<open>\<^verbatim>\<open>kill(signal = "SIGTERM")\<close>\<close>

definition kill :: "string option \<Rightarrow> ClaudeSubprocess \<Rightarrow> ClaudeSubprocess" where
  "kill signal_arg d =
    (let signal = (case signal_arg of None \<Rightarrow> ''SIGTERM'' | Some s \<Rightarrow> s)
     in if \<not> isKilled d \<and> process d \<noteq> None
        then process_kill signal (clearTimeout (d\<lparr>isKilled := True\<rparr>))
        else d)"

text \<open>
  The callback of the timer: it runs only while the timer is pending, and a timer fires
  once. The handle stays in \<^verbatim>\<open>timeoutId\<close>.
\<close>

definition timeout_expired :: "string \<Rightarrow> ClaudeSubprocess \<Rightarrow> ClaudeSubprocess" where
  "timeout_expired message d =
    (if timer_pending d
     then (let d1 = d\<lparr>timer_pending := False\<rparr>
           in if \<not> isKilled d1
              then (process_kill ''SIGTERM'' (d1\<lparr>isKilled := True\<rparr>))
                     \<lparr>error_events := error_events d1 @ [message]\<rparr>
              else d1)
     else d)"

datatype driver_call = Kill "string option" | TimeoutExpired

fun driver_step :: "ClaudeSubprocess \<Rightarrow> driver_call \<Rightarrow> ClaudeSubprocess" where
  "driver_step d (Kill s) = kill s d"
| "driver_step d TimeoutExpired = timeout_expired ''Request timed out'' d"

definition signals_sent :: "ClaudeSubprocess \<Rightarrow> string list" where
  "signals_sent d = (case process d of None \<Rightarrow> [] | Some sent \<Rightarrow> sent)"

section \<open>Route handlers (server/routes.js)\<close>

subsection \<open>The response object\<close>

record ErrorEnvelope =
  err_message :: string
  err_type :: string
  err_code :: "string option"

datatype http_body = Completion ChatCompletion | Failure ErrorEnvelope

datatype sse_frame = Comment string | DataChunk ChatChunk | DataError ErrorEnvelope | DataDone

text \<open>
  The part of an Express response the handlers use. \<open>json_calls\<close> lists every call of
  \<^verbatim>\<open>res.json\<close> in order, with the status code in force; \<open>frames\<close> lists what
  \<^verbatim>\<open>res.write\<close> was given. Once the headers are sent, \<^verbatim>\<open>res.json\<close> and
  \<^verbatim>\<open>res.setHeader\<close> raise \<^verbatim>\<open>ERR_HTTP_HEADERS_SENT\<close>; \<open>raised\<close> counts these
  exceptions, which no handler catches.
\<close>

record Response =
  statusCode :: nat
  headers :: "(string \<times> string) list"
  headersSent :: bool
  writableEnded :: bool
  frames :: "sse_frame list"
  json_calls :: "(nat \<times> http_body) list"
  raised :: nat

definition new_Response :: Response where
  "new_Response =
    \<lparr>statusCode = 200, headers = [], headersSent = False, writableEnded = False,
     frames = [], json_calls = [], raised = 0\<rparr>"

definition res_status :: "nat \<Rightarrow> Response \<Rightarrow> Response" where
  "res_status code res = res\<lparr>statusCode := code\<rparr>"

definition res_json :: "http_body \<Rightarrow> Response \<Rightarrow> Response" where
  "res_json body res =
    (if headersSent res
     then res\<lparr>json_calls := json_calls res @ [(statusCode res, body)], raised := Suc (raised res)\<rparr>
     else res\<lparr>json_calls := json_calls res @ [(statusCode res, body)],
              headersSent := True, writableEnded := True\<rparr>)"

definition res_write :: "sse_frame \<Rightarrow> Response \<Rightarrow> Response" where
  "res_write f res = res\<lparr>frames := frames res @ [f], headersSent := True\<rparr>"

definition res_end :: "Response \<Rightarrow> Response" where
  "res_end res = res\<lparr>headersSent := True, writableEnded := True\<rparr>"

definition server_error :: "string \<Rightarrow> ErrorEnvelope" where
  "server_error message = \<lparr>err_message = message, err_type = ''server_error'', err_code = None\<rparr>"

text \<open>The events a handler's listeners receive from the driver, the response and \<^verbatim>\<open>start\<close>.\<close>

datatype sub_event =
    ContentDelta "string option"
  | AssistantEv string
  | ResultEv ClaudeCliResult
  | ErrorEv string
  | CloseEv "int option"
  | StartRejected string
  | ClientClosed

definition exit_message :: "int option \<Rightarrow> string" where
  "exit_message code =
    ''Claude CLI exited with code '' @ (case code of None \<Rightarrow> ''null'' | Some c \<Rightarrow> show_int c)
    @ '' without response''"

subsection \<open>handleNonStreamingResponse\<close>

record NonStreaming =
  ns_finalResult :: "ClaudeCliResult option"
  ns_res :: Response
  ns_runtime :: runtime

definition new_NonStreaming :: "runtime \<Rightarrow> NonStreaming" where
  "new_NonStreaming rt = \<lparr>ns_finalResult = None, ns_res = new_Response, ns_runtime = rt\<rparr>"

text \<open>
  One listener call. A throw of \<^verbatim>\<open>cliResultToOpenai\<close> leaves the listener before
  \<^verbatim>\<open>res.json\<close> is reached. The handler has no listener for content deltas, assistant
  messages or the close of the response.
\<close>

fun handleNonStreamingResponse :: "string \<Rightarrow> NonStreaming \<Rightarrow> sub_event \<Rightarrow> NonStreaming" where
  "handleNonStreamingResponse requestId st (ResultEv r) = st\<lparr>ns_finalResult := Some r\<rparr>"
| "handleNonStreamingResponse requestId st (ErrorEv message) =
    st\<lparr>ns_res := res_json (Failure (server_error message)) (res_status 500 (ns_res st))\<rparr>"
| "handleNonStreamingResponse requestId st (CloseEv code) =
    (case ns_finalResult st of
       Some finalResult \<Rightarrow>
         (case cliResultToOpenai finalResult requestId (ns_runtime st) of
            Inl e \<Rightarrow> st
          | Inr body \<Rightarrow>
             st\<lparr>ns_res := res_json (Completion body) (ns_res st),
                ns_runtime := snd (Date_now (ns_runtime st))\<rparr>)
     | None \<Rightarrow>
         if \<not> headersSent (ns_res st)
         then st\<lparr>ns_res := res_json (Failure (server_error (exit_message code)))
                              (res_status 500 (ns_res st))\<rparr>
         else st)"
| "handleNonStreamingResponse requestId st (StartRejected message) =
    st\<lparr>ns_res := res_json (Failure (server_error message)) (res_status 500 (ns_res st))\<rparr>"
| "handleNonStreamingResponse requestId st ev = st"

subsection \<open>handleToolAwareResponse\<close>

record ToolAware =
  bufferedText :: string
  lastModel :: string
  ta_finalResult :: "ClaudeCliResult option"
  isComplete :: bool
  ta_res :: Response
  ta_killed :: bool
  ta_runtime :: runtime

definition new_ToolAware :: "runtime \<Rightarrow> ToolAware" where
  "new_ToolAware rt =
    \<lparr>bufferedText = [], lastModel = ''claude-sonnet-4'', ta_finalResult = None,
     isComplete = False, ta_res = new_Response, ta_killed = False, ta_runtime = rt\<rparr>"

text \<open>\<^verbatim>\<open>finalResult?.result || bufferedText\<close>\<close>

definition responseText :: "ToolAware \<Rightarrow> string" where
  "responseText st =
    (case ta_finalResult st of
       Some r \<Rightarrow> if result_text r \<noteq> [] then result_text r else bufferedText st
     | None \<Rightarrow> bufferedText st)"

definition write_if_open :: "sse_frame \<Rightarrow> Response \<Rightarrow> Response" where
  "write_if_open f res = (if \<not> writableEnded res then res_write f res else res)"

definition sse_headers :: "string \<Rightarrow> (string \<times> string) list" where
  "sse_headers requestId =
    [(''Content-Type'', ''text/event-stream''), (''Cache-Control'', ''no-cache''),
     (''Connection'', ''keep-alive''), (''X-Request-Id'', requestId)]"

text \<open>
  The \<^verbatim>\<open>close\<close> listener behind the test for an empty response: the text is parsed,
  then the streaming branch replays chunks and the other branch sends one JSON body.
\<close>

definition tool_aware_close_stream :: "string \<Rightarrow> ToolAware \<Rightarrow> ToolAware" where
  "tool_aware_close_stream requestId st =
    (let (parsed, rt1) = parseToolCalls (responseText st) (ta_runtime st);
         res = ta_res st
     in if headersSent res
        then st\<lparr>ta_res := res\<lparr>raised := Suc (raised res)\<rparr>, ta_runtime := rt1\<rparr>
        else
          (let res1 = res_write (Comment '':ok'') (res\<lparr>headers := headers res @ sse_headers requestId,
                                                       headersSent := True\<rparr>);
               chunks =
                 (if toolCalls parsed \<noteq> []
                  then buildToolCallChunks (toolCalls parsed) (textContent parsed) requestId
                         (lastModel st) rt1
                  else [\<lparr>chunk_id = ''chatcmpl-'' @ requestId,
                          chunk_object = ''chat.completion.chunk'',
                          chunk_created = now_seconds rt1, chunk_model = lastModel st,
                          delta_role = Some ''assistant'', delta_content = Some (responseText st),
                          delta_tool_calls = None, chunk_finish_reason = None\<rparr>,
                        createDoneChunk requestId (lastModel st) (snd (Date_now rt1))]);
               res2 = foldl (\<lambda>r c. write_if_open (DataChunk c) r) res1 chunks;
               res3 = (if \<not> writableEnded res2 then res_end (res_write DataDone res2) else res2)
           in st\<lparr>ta_res := res3,
                 ta_runtime := (if toolCalls parsed \<noteq> [] then snd (Date_now rt1)
                                else snd (Date_now (snd (Date_now rt1))))\<rparr>))"

definition tool_aware_close_json :: "string \<Rightarrow> ToolAware \<Rightarrow> ToolAware" where
  "tool_aware_close_json requestId st =
    (let (parsed, rt1) = parseToolCalls (responseText st) (ta_runtime st)
     in case ta_finalResult st of
          Some finalResult \<Rightarrow>
            (case cliResultToOpenaiWithTools finalResult requestId rt1 of
               Inl e \<Rightarrow> st\<lparr>ta_runtime := rt1\<rparr>
             | Inr body \<Rightarrow>
                st\<lparr>ta_res := res_json (Completion body) (ta_res st),
                   ta_runtime := snd (Date_now (snd (parseToolCalls (result_text finalResult) rt1)))\<rparr>)
        | None \<Rightarrow>
            st\<lparr>ta_res :=
                 res_json
                   (Completion
                     \<lparr>cmpl_id = ''chatcmpl-'' @ requestId, cmpl_object = ''chat.completion'',
                      cmpl_created = now_seconds rt1, cmpl_model = lastModel st,
                      cmpl_message =
                        (if toolCalls parsed \<noteq> []
                         then \<lparr>msg_role = ''assistant'', msg_content = textContent parsed,
                               msg_tool_calls = Some (toolCalls parsed)\<rparr>
                         else \<lparr>msg_role = ''assistant'', msg_content = Some (responseText st),
                               msg_tool_calls = None\<rparr>),
                      cmpl_finish_reason = (if toolCalls parsed \<noteq> [] then ''tool_calls'' else ''stop''),
                      cmpl_usage = \<lparr>prompt_tokens = 0, completion_tokens = 0, total_tokens = 0\<rparr>\<rparr>)
                   (ta_res st),
               ta_runtime := snd (Date_now rt1)\<rparr>)"

fun handleToolAwareResponse ::
  "string \<Rightarrow> bool \<Rightarrow> ToolAware \<Rightarrow> sub_event \<Rightarrow> ToolAware" where
  "handleToolAwareResponse requestId stream st ClientClosed =
    (if \<not> isComplete st then st\<lparr>ta_killed := True\<rparr> else st)"
| "handleToolAwareResponse requestId stream st (ContentDelta d) =
    (case d of
       None \<Rightarrow> st
     | Some t \<Rightarrow> if t \<noteq> [] then st\<lparr>bufferedText := bufferedText st @ t\<rparr> else st)"
| "handleToolAwareResponse requestId stream st (AssistantEv m) = st\<lparr>lastModel := m\<rparr>"
| "handleToolAwareResponse requestId stream st (ResultEv r) = st\<lparr>ta_finalResult := Some r\<rparr>"
| "handleToolAwareResponse requestId stream st (ErrorEv message) =
    (let st1 = st\<lparr>isComplete := True\<rparr>
     in if \<not> headersSent (ta_res st1)
        then st1\<lparr>ta_res := res_json (Failure (server_error message)) (res_status 500 (ta_res st1))\<rparr>
        else st1)"
| "handleToolAwareResponse requestId stream st (CloseEv code) =
    (let st1 = st\<lparr>isComplete := True\<rparr>
     in if responseText st1 = [] \<and> \<not> headersSent (ta_res st1)
        then st1\<lparr>ta_res := res_json (Failure (server_error (exit_message code)))
                              (res_status 500 (ta_res st1))\<rparr>
        else if stream then tool_aware_close_stream requestId st1
        else tool_aware_close_json requestId st1)"
| "handleToolAwareResponse requestId stream st (StartRejected message) =
    (if \<not> headersSent (ta_res st)
     then st\<lparr>ta_res := res_json (Failure (server_error message)) (res_status 500 (ta_res st))\<rparr>
     else st)"

subsection \<open>handleChatCompletions\<close>

datatype dispatch = ToolAwareMode bool | StreamingMode | NonStreamingMode

datatype handled = Reply nat ErrorEnvelope | Run dispatch CliInput | Rejected js_error

text \<open>The message of a caught exception.\<close>

definition error_message :: "js_error \<Rightarrow> string" where
  "error_message e = (case e of TypeError \<Rightarrow> ''TypeError'' | SyntaxError \<Rightarrow> ''SyntaxError'')"

text \<open>
  The handler up to the choice of the response mode. The body is what the JSON body parser
  produced. Reading \<^verbatim>\<open>body.stream\<close> stands before the \<^verbatim>\<open>try\<close>; the validation and
  \<^verbatim>\<open>openaiToCli\<close> stand inside, and nothing is sent before them, so the \<^verbatim>\<open>catch\<close>
  answers with status 500.
\<close>

definition request_of :: "json \<Rightarrow> json list \<Rightarrow> OpenAIChatRequest" where
  "request_of body messages =
    \<lparr>req_messages = messages,
     req_tools = (case js_get (Some body) ''tools'' of Inr v \<Rightarrow> v | Inl e \<Rightarrow> None),
     req_tool_choice = (case js_get (Some body) ''tool_choice'' of Inr v \<Rightarrow> v | Inl e \<Rightarrow> None),
     req_model = (case js_get (Some body) ''model'' of Inr v \<Rightarrow> v | Inl e \<Rightarrow> None),
     req_user = (case js_get (Some body) ''user'' of Inr v \<Rightarrow> v | Inl e \<Rightarrow> None),
     req_stream = (case js_get (Some body) ''stream'' of Inr v \<Rightarrow> v | Inl e \<Rightarrow> None)\<rparr>"

definition handleChatCompletions :: "json \<Rightarrow> handled" where
  "handleChatCompletions body =
    (case js_get (Some body) ''stream'' of
       Inl e \<Rightarrow> Rejected e
     | Inr stream_field \<Rightarrow>
        (case js_get (Some body) ''messages'' of
           Inl e \<Rightarrow> Reply 500 (server_error (error_message e))
         | Inr (Some (JArr (m # ms))) \<Rightarrow>
            (case openaiToCli (request_of body (m # ms)) of
               Inl e \<Rightarrow> Reply 500 (server_error (error_message e))
             | Inr cliInput \<Rightarrow>
                Run (if cli_hasTools cliInput then ToolAwareMode (stream_field = Some (JBool True))
                     else if stream_field = Some (JBool True) then StreamingMode
                     else NonStreamingMode) cliInput)
         | Inr other \<Rightarrow>
            Reply 400 \<lparr>err_message = ''messages is required and must be a non-empty array'',
                       err_type = ''invalid_request_error'', err_code = Some ''invalid_messages''\<rparr>))"

section \<open>Session store (session/manager.js)\<close>

record SessionMapping =
  clawdbotId :: string
  claudeSessionId :: string
  createdAt :: int
  lastUsedAt :: int
  sess_model :: string

text \<open>
  The manager: the \<^verbatim>\<open>sessions\<close> Map, the \<^verbatim>\<open>loaded\<close> flag, and the number of
  \<^verbatim>\<open>save()\<close> calls fired (each rewrites the whole file; none is awaited).
\<close>

record SessionManager =
  sessions :: "string \<rightharpoonup> SessionMapping"
  loaded :: bool
  saves :: nat

text \<open>
  \<^verbatim>\<open>getOrCreate(clawdbotId, model = "sonnet")\<close>. An entry of the Map is an object, hence
  truthy: \<^verbatim>\<open>if (existing)\<close> is the test that the key is present. A new mapping reads
  the clock twice, once for \<^verbatim>\<open>createdAt\<close> and once for \<^verbatim>\<open>lastUsedAt\<close>.
\<close>

definition getOrCreate ::
  "string \<Rightarrow> string option \<Rightarrow> SessionManager \<times> runtime \<Rightarrow> string \<times> SessionManager \<times> runtime" where
  "getOrCreate cid model_arg st =
    (let mgr = fst st; rt = snd st;
         md = (case model_arg of None \<Rightarrow> ''sonnet'' | Some m \<Rightarrow> m)
     in case sessions mgr cid of
          Some existing \<Rightarrow>
            (let (now, rt1) = Date_now rt;
                 existing' = existing\<lparr>lastUsedAt := now, sess_model := md\<rparr>
             in (claudeSessionId existing',
                 mgr\<lparr>sessions := (sessions mgr)(cid \<mapsto> existing')\<rparr>, rt1))
        | None \<Rightarrow>
            (let (sid, rt1) = uuidv4 rt;
                 (t1, rt2) = Date_now rt1;
                 (t2, rt3) = Date_now rt2;
                 mapping = \<lparr>clawdbotId = cid, claudeSessionId = sid, createdAt = t1,
                            lastUsedAt = t2, sess_model = md\<rparr>
             in (sid, mgr\<lparr>sessions := (sessions mgr)(cid \<mapsto> mapping), saves := Suc (saves mgr)\<rparr>,
                 rt3)))"

text \<open>A run of \<^verbatim>\<open>getOrCreate\<close> calls, each with its conversation id and model argument.\<close>

fun getOrCreate_calls ::
  "(string \<times> string option) list \<Rightarrow> SessionManager \<times> runtime \<Rightarrow> SessionManager \<times> runtime" where
  "getOrCreate_calls [] st = st"
| "getOrCreate_calls ((cid, m) # cs) st = getOrCreate_calls cs (snd (getOrCreate cid m st))"

section \<open>Invariants and sample inputs of the results\<close>

text \<open>The driver once a first \<^verbatim>\<open>kill\<close> or timer expiry has run.\<close>

definition driver_settled :: "ClaudeSubprocess \<Rightarrow> bool" where
  "driver_settled d = (isKilled d \<and> \<not> timer_pending d \<and> length (signals_sent d) = 1)"

text \<open>An empty store.\<close>

definition empty_manager :: SessionManager where
  "empty_manager = \<lparr>sessions = Map.empty, loaded = True, saves = 0\<rparr>"

text \<open>A runtime whose clock is set back by one at each reading.\<close>

definition backward_runtime :: runtime where
  "backward_runtime = \<lparr>clock = (\<lambda>k. 1000 - int k), ticks = 0,
                        uuid_source = (\<lambda>k. ''uuid-'' @ replicate k CHR ''x''), uuid_count = 0\<rparr>"

text \<open>
  A runtime for the closed examples: a clock in milliseconds that advances by one at each
  reading, and identifiers in the layout of a UUID.
\<close>

definition sample_runtime :: runtime where
  "sample_runtime =
    \<lparr>clock = (\<lambda>k. 1700000000000 + int k), ticks = 0,
     uuid_source = (\<lambda>k. ''123e4567-e89b-12d3-a456-42661417400'' @ digits (int k)),
     uuid_count = 0\<rparr>"

text \<open>A \<^verbatim>\<open>result\<close> event with a text, and one whose \<^verbatim>\<open>result\<close> string is empty.\<close>

definition sample_result :: ClaudeCliResult where
  "sample_result =
    \<lparr>result_text = ''hello'', result_usage = Some (Some 3, Some 5),
     result_modelUsage = Some [''claude-sonnet-4-5-20250929'']\<rparr>"

definition empty_result :: ClaudeCliResult where
  "empty_result =
    \<lparr>result_text = [], result_usage = Some (Some 3, Some 5),
     result_modelUsage = Some [''claude-sonnet-4-5-20250929'']\<rparr>"

text \<open>
  The driver times out, the child still delivers its \<^verbatim>\<open>result\<close> line, then exits on the
  signal.
\<close>

definition timeout_then_result :: "sub_event list" where
  "timeout_then_result =
    [ErrorEv ''Request timed out after 300000ms'', ResultEv sample_result, CloseEv (Some 143)]"

text \<open>
  The deltas carry a tool call, the \<^verbatim>\<open>result\<close> event carries an empty string, the child
  exits with code 0.
\<close>

definition buffered_call_events :: "sub_event list" where
  \<open>buffered_call_events =
    [ContentDelta (Some ''<tool_call>{"name":"get_weather",''),
     ContentDelta (Some ''"arguments":{"city":"Paris"}}</tool_call>''),
     ResultEv empty_result, CloseEv (Some 0)]\<close>





text \<open>The finish reasons a response carries: of its JSON bodies, and of its chunks.\<close>

fun body_finish_reasons :: "(nat \<times> http_body) list \<Rightarrow> string list" where
  "body_finish_reasons [] = []"
| "body_finish_reasons ((code, Completion c) # bs) = cmpl_finish_reason c # body_finish_reasons bs"
| "body_finish_reasons ((code, Failure e) # bs) = body_finish_reasons bs"

fun frame_finish_reasons :: "sse_frame list \<Rightarrow> string list" where
  "frame_finish_reasons [] = []"
| "frame_finish_reasons (DataChunk c # fs) =
    (case chunk_finish_reason c of
       None \<Rightarrow> frame_finish_reasons fs
     | Some r \<Rightarrow> r # frame_finish_reasons fs)"
| "frame_finish_reasons (f # fs) = frame_finish_reasons fs"

text \<open>
  An assistant message whose tool call carries an arguments string that is not JSON, and a
  request body that holds it.
\<close>

definition bad_call_message :: json where
  "bad_call_message =
    JObj [(''role'', JStr ''assistant''), (''content'', JNull),
          (''tool_calls'',
           JArr [JObj [(''id'', JStr ''call_1''), (''type'', JStr ''function''),
                       (''function'', JObj [(''name'', JStr ''get_weather''),
                                            (''arguments'', JStr ''{not json}'')])]])]"

definition bad_call_body :: json where
  "bad_call_body =
    JObj [(''model'', JStr ''claude-sonnet-4''),
          (''messages'', JArr [JObj [(''role'', JStr ''user''), (''content'', JStr ''hi'')],
                               bad_call_message])]"

text \<open>
  Two requests with the same messages and the same tools; the second sets
  \<^verbatim>\<open>tool_choice\<close> to \<^verbatim>\<open>"none"\<close>. A third differs from the first in model, user and
  stream flag only.
\<close>

definition weather_tool :: json where
  "weather_tool =
    JObj [(''type'', JStr ''function''),
          (''function'', JObj [(''name'', JStr ''get_weather''),
                               (''parameters'', JObj [(''type'', JStr ''object'')])])]"

definition request_with_tools :: OpenAIChatRequest where
  "request_with_tools =
    \<lparr>req_messages = [JObj [(''role'', JStr ''user''), (''content'', JStr ''hi'')]],
     req_tools = Some (JArr [weather_tool]), req_tool_choice = None,
     req_model = Some (JStr ''claude-sonnet-4''), req_user = None, req_stream = None\<rparr>"

definition request_choice_none :: OpenAIChatRequest where
  "request_choice_none = request_with_tools\<lparr>req_tool_choice := Some (JStr ''none'')\<rparr>"

definition request_other_fields :: OpenAIChatRequest where
  "request_other_fields =
    request_with_tools\<lparr>req_model := Some (JStr ''opus''), req_user := Some (JStr ''conv-1''),
                        req_stream := Some (JBool True)\<rparr>"

text \<open>The prompt of a translated request, when the translation returns.\<close>

definition prompt_of :: "js_error + CliInput \<Rightarrow> string option" where
  "prompt_of r = (case r of Inl e \<Rightarrow> None | Inr c \<Rightarrow> Some (cli_prompt c))"

text \<open>The group of every match of the pattern, from left to right.\<close>

function regex_matches :: "string \<Rightarrow> string list" where
  "regex_matches text =
    (case regex_exec text of
       None \<Rightarrow> []
     | Some (body, rest) \<Rightarrow> body # regex_matches rest)"
  by pat_completeness auto
termination
  by (relation "measure length") (auto dest: regex_exec_shorter)

declare regex_matches.simps [simp del]

text \<open>
  What the \<^verbatim>\<open>try\<close> block makes of a list of matched bodies: a body that fails is passed
  over.
\<close>

fun calls_from :: "string list \<Rightarrow> runtime \<Rightarrow> ToolCall list \<times> runtime" where
  "calls_from [] rt = ([], rt)"
| "calls_from (body # bodies) rt =
    (case and_then (JSON_parse body) (\<lambda>parsed. make_tool_call parsed rt) of
       Inl e \<Rightarrow> calls_from bodies rt
     | Inr (tc, rt') \<Rightarrow> (let (tcs, rt'') = calls_from bodies rt' in (tc # tcs, rt'')))"

text \<open>
  The \<^verbatim>\<open><tool_call>\<close> blocks of a text as the removal counts them: from an opening tag
  to the first closing tag behind it. \<open>tool_call_blocks\<close> lists what stands between the tags.
\<close>

fun split_at_close :: "string \<Rightarrow> (string \<times> string) option" where
  "split_at_close [] = None"
| "split_at_close (c # cs) =
    (if prefix CLOSE_TAG (c # cs) then Some ([], drop (length CLOSE_TAG) (c # cs))
     else map_option (\<lambda>(body, rest). (c # body, rest)) (split_at_close cs))"

lemma split_at_close_shorter: "split_at_close t = Some (body, rest) \<Longrightarrow> length rest < length t"
  by (induction t arbitrary: body) (auto simp: CLOSE_TAG_def split: if_splits)

function tool_call_blocks :: "string \<Rightarrow> string list" where
  "tool_call_blocks [] = []"
| "tool_call_blocks (c # cs) =
    (if prefix OPEN_TAG (c # cs) then
       (case split_at_close (drop (length OPEN_TAG) (c # cs)) of
          Some (body, rest) \<Rightarrow> body # tool_call_blocks rest
        | None \<Rightarrow> tool_call_blocks cs)
     else tool_call_blocks cs)"
  by pat_completeness auto
termination
proof (relation "measure length")
  show "wf (measure length)" by simp
next
  fix c :: char and cs x body rest
  assume "split_at_close (drop (length OPEN_TAG) (c # cs)) = Some x" and "(body, rest) = x"
  then have "length rest < length (drop (length OPEN_TAG) (c # cs))"
    using split_at_close_shorter by metis
  then show "(rest, c # cs) \<in> measure length" by simp
qed simp_all

text \<open>No occurrence of the tag starts at a position below \<open>n\<close>.\<close>

definition absent_before :: "string \<Rightarrow> nat \<Rightarrow> string \<Rightarrow> bool" where
  "absent_before tag n t = (\<forall>i<n. \<not> prefix tag (drop i t))"

text \<open>A block without closing brace, followed by a well-formed block.\<close>

definition swallowed_block_text :: string where
  \<open>swallowed_block_text =
    ''<tool_call>{bad</tool_call><tool_call>{"name":"f","arguments":{}}</tool_call>''\<close>

section \<open>Tool calls lowered and parsed back: notions of the results\<close>

subsection \<open>Values that \<^verbatim>\<open>JSON.parse\<close> reads back\<close>







subsection \<open>Texts in which the pattern of \<^verbatim>\<open>parseToolCalls\<close> finds no end and no start\<close>





subsection \<open>An assistant message with tool calls\<close>

















section \<open>Throwing computations: basic facts\<close>

lemma and_then_isl: "isl m \<Longrightarrow> isl (and_then m f)"
  by (cases m) (auto simp: and_then_def)

lemma and_then_Inr: "and_then (Inr x) f = f x"
  by (simp add: and_then_def)

lemma and_then_Inl: "and_then (Inl e) f = Inl e"
  by (simp add: and_then_def)

lemma isl_and_then_iff: "isl (and_then m f) \<longleftrightarrow> isl m \<or> (\<exists>x. m = Inr x \<and> isl (f x))"
  by (cases m) (auto simp: and_then_def)

lemma isl_and_thenI: "(\<And>x. m = Inr x \<Longrightarrow> isl (f x)) \<Longrightarrow> isl (and_then m f)"
  by (cases m) (auto simp: and_then_def)

lemma each_throws: "x \<in> set xs \<Longrightarrow> isl (f x) \<Longrightarrow> isl (each f xs)"
proof (induction xs)
  case Nil
  then show ?case by simp
next
  case (Cons a xs)
  show ?case
  proof (cases "x = a")
    case True
    with Cons.prems show ?thesis by (simp add: and_then_isl)
  next
    case False
    with Cons have "isl (each f xs)" by simp
    then show ?thesis by simp (rule isl_and_thenI, rule and_then_isl)
  qed
qed

lemma isl_and_then_second:
  "(\<And>x. m = Inr x \<Longrightarrow> isl (k x)) \<Longrightarrow> isl (and_then m (\<lambda>x. and_then (k x) (g x)))"
  by (rule isl_and_thenI) (rule and_then_isl)

lemma isl_and_then_third:
  "(\<And>x y. m = Inr x \<Longrightarrow> isl (k x)) \<Longrightarrow>
   isl (and_then m (\<lambda>x. and_then (h x) (\<lambda>y. and_then (k x) (g x y))))"
  by (rule isl_and_thenI, rule isl_and_thenI, rule and_then_isl)

section \<open>JSON: the parser reads back what the printer writes\<close>

subsection \<open>Numbers\<close>




lemma hex_val_digit_char: "d < 16 \<Longrightarrow> hex_val (digit_char d) = Some d"
proof -
  assume "d < 16"
  then have "d = 0 \<or> d = 1 \<or> d = 2 \<or> d = 3 \<or> d = 4 \<or> d = 5 \<or> d = 6 \<or> d = 7 \<or> d = 8 \<or> d = 9
      \<or> d = 10 \<or> d = 11 \<or> d = 12 \<or> d = 13 \<or> d = 14 \<or> d = 15"
    by arith
  then show ?thesis by (auto simp: digit_char_def hex_val_def is_digit_def)
qed









subsection \<open>Strings\<close>

lemma control_char_cases:
  assumes "(of_char c :: nat) < 32"
  shows "c \<in> set (map char_of [0..<32::nat])"
proof -
  have "c = char_of (of_char c :: nat)" by simp
  moreover have "(of_char c :: nat) \<in> set [0..<32]" using assms by simp
  ultimately show ?thesis by (metis image_eqI list.set_map)
qed

lemma lex_string_escape:
  "lex_string (escape_char c @ t) = map_option (\<lambda>(str, rest). (c # str, rest)) (lex_string t)"
proof (cases "(of_char c :: nat) < 32")
  case False
  then show ?thesis
    by (auto simp: escape_char_def simple_escape_def)
next
  case True
  let ?n = "of_char c :: nat"
  consider (b) "c = CHR 0x08" | (f) "c = CHR 0x0C" | (n) "c = CHR 0x0A" | (r) "c = CHR 0x0D"
    | (t) "c = CHR 0x09"
    | (u) "c \<noteq> CHR 0x08" "c \<noteq> CHR 0x0C" "c \<noteq> CHR 0x0A" "c \<noteq> CHR 0x0D" "c \<noteq> CHR 0x09"
    by blast
  then show ?thesis
  proof cases
    case u
    from True have q: "c \<noteq> CHR 0x22" "c \<noteq> CHR 0x5C" by auto
    have d1: "?n div 16 < 16" and d2: "?n mod 16 < 16" using True by simp_all
    have z: "hex_val CHR ''0'' = Some 0" by (simp add: hex_val_def is_digit_def)
    have h: "hex4 CHR ''0'' CHR ''0'' (digit_char (?n div 16)) (digit_char (?n mod 16)) = Some ?n"
      by (simp add: hex4_def z hex_val_digit_char [OF d1] hex_val_digit_char [OF d2])
    have lt: "?n < 256" using True by simp
    have e: "escape_char c = CHR 0x5C # ''u00'' @ [digit_char (?n div 16), digit_char (?n mod 16)]"
      using u q True by (simp add: escape_char_def)
    show ?thesis unfolding e using h lt by simp
  qed (simp_all add: escape_char_def simple_escape_def)
qed

lemma lex_string_quote_body:
  "lex_string (concat (map escape_char s) @ CHR 0x22 # rest) = Some (s, rest)"
proof (induction s)
  case Nil
  then show ?case by simp
next
  case (Cons c s)
  have "lex_string (concat (map escape_char (c # s)) @ CHR 0x22 # rest)
      = lex_string (escape_char c @ (concat (map escape_char s) @ CHR 0x22 # rest))" by simp
  also have "\<dots> = Some (c # s, rest)" by (simp only: lex_string_escape Cons.IH) simp
  finally show ?case .
qed

lemma quote_Cons: "quote s = CHR 0x22 # (concat (map escape_char s) @ [CHR 0x22])"
  by (simp add: quote_def)

lemma lex_string_quote: "lex_string (tl (quote s) @ rest) = Some (s, rest)"
  using lex_string_quote_body [of s rest] by (simp add: quote_def)

subsection \<open>The shape of the printed text\<close>









subsection \<open>Values\<close>




















section \<open>Tool protocol: results\<close>

subsection \<open>parseToolCalls\<close>

lemma tool_call_loop_matches: "tool_call_loop t rt = calls_from (regex_matches t) rt"
proof (induction t rt rule: tool_call_loop.induct)
  case (1 t rt)
  show ?case
  proof (cases "regex_exec t")
    case None
    then show ?thesis by (simp add: tool_call_loop.simps [of t] regex_matches.simps [of t])
  next
    case (Some m)
    obtain body rest where m: "m = (body, rest)" by (cases m)
    show ?thesis
    proof (cases "and_then (JSON_parse body) (\<lambda>parsed. make_tool_call parsed rt)")
      case (Inl e)
      with 1(1) [OF Some m [symmetric] Inl] Some m show ?thesis
        by (simp add: tool_call_loop.simps [of t] regex_matches.simps [of t])
    next
      case (Inr r)
      obtain tc rt' where r: "r = (tc, rt')" by (cases r)
      with 1(2) [OF Some m [symmetric] Inr r [symmetric]] Some m Inr show ?thesis
        by (simp add: tool_call_loop.simps [of t] regex_matches.simps [of t])
    qed
  qed
qed

lemma calls_from_skip:
  "JSON_parse b = Inl e \<Longrightarrow> calls_from (bs1 @ b # bs2) rt = calls_from (bs1 @ bs2) rt"
  by (induction bs1 arbitrary: rt) (auto simp: and_then_def split: sum.splits prod.splits)

lemma find_close_first:
  "absent_before CLOSE_TAG (length body) (body @ CLOSE_TAG @ post) \<Longrightarrow>
   find_close (body @ CLOSE_TAG @ post) = Some post"
proof (induction body)
  case Nil
  then show ?case by (simp add: CLOSE_TAG_def)
next
  case (Cons c body)
  from Cons.prems have here: "\<not> prefix CLOSE_TAG ((c # body) @ CLOSE_TAG @ post)"
    unfolding absent_before_def by (metis drop0 length_greater_0_conv list.distinct(1))
  have "absent_before CLOSE_TAG (length body) (body @ CLOSE_TAG @ post)"
    unfolding absent_before_def
  proof (intro allI impI)
    fix i assume "i < length body"
    then have "Suc i < length (c # body)" by simp
    with Cons.prems have "\<not> prefix CLOSE_TAG (drop (Suc i) ((c # body) @ CLOSE_TAG @ post))"
      unfolding absent_before_def by blast
    then show "\<not> prefix CLOSE_TAG (drop i (body @ CLOSE_TAG @ post))" by simp
  qed
  with Cons.IH here show ?case by simp
qed


lemma absent_before_Cons:
  "absent_before tag (Suc n) (c # t) \<Longrightarrow> \<not> prefix tag (c # t) \<and> absent_before tag n t"
  unfolding absent_before_def
proof (intro conjI allI impI)
  assume a: "\<forall>i<Suc n. \<not> prefix tag (drop i (c # t))"
  from a have "\<not> prefix tag (drop 0 (c # t))" by blast
  then show "\<not> prefix tag (c # t)" by simp
  fix i assume "i < n"
  with a have "\<not> prefix tag (drop (Suc i) (c # t))" by blast
  then show "\<not> prefix tag (drop i t)" by simp
qed

lemma strip_blocks_no_open: "absent_before OPEN_TAG (length t) t \<Longrightarrow> strip_blocks t = t"
proof (induction t)
  case Nil
  then show ?case by simp
next
  case (Cons c t)
  from Cons.prems have "absent_before OPEN_TAG (Suc (length t)) (c # t)" by simp
  then have "\<not> prefix OPEN_TAG (c # t)" and "absent_before OPEN_TAG (length t) t"
    using absent_before_Cons by blast+
  with Cons.IH show ?case by simp
qed

lemma strip_blocks_block:
  assumes "absent_before OPEN_TAG (length pre) (pre @ OPEN_TAG @ body @ CLOSE_TAG @ post)"
    and "absent_before CLOSE_TAG (length body) (body @ CLOSE_TAG @ post)"
  shows "strip_blocks (pre @ OPEN_TAG @ body @ CLOSE_TAG @ post) = pre @ strip_blocks post"
  using assms(1)
proof (induction pre)
  case Nil
  let ?x = "''tool_call>'' @ body @ CLOSE_TAG @ post"
  have e: "[] @ OPEN_TAG @ body @ CLOSE_TAG @ post = CHR ''<'' # ?x"
    by (simp add: OPEN_TAG_def)
  have pfx: "prefix OPEN_TAG (CHR ''<'' # ?x) = True"
    by (simp add: OPEN_TAG_def)
  have drp: "drop (length OPEN_TAG) (CHR ''<'' # ?x) = body @ CLOSE_TAG @ post"
    by (simp add: OPEN_TAG_def)
  have h: "strip_blocks (CHR ''<'' # ?x) = strip_blocks post"
    by (simp only: strip_blocks.simps(2) pfx drp find_close_first [OF assms(2)] if_True
        option.case)
  show ?case unfolding e h by (simp only: append_Nil)
next
  case (Cons c pre)
  from Cons.prems
  have "absent_before OPEN_TAG (Suc (length pre)) (c # (pre @ OPEN_TAG @ body @ CLOSE_TAG @ post))"
    by simp
  then have "\<not> prefix OPEN_TAG (c # (pre @ OPEN_TAG @ body @ CLOSE_TAG @ post))"
    and "absent_before OPEN_TAG (length pre) (pre @ OPEN_TAG @ body @ CLOSE_TAG @ post)"
    using absent_before_Cons by blast+
  with Cons.IH show ?case by simp
qed

text \<open>
  C6, amended: for every input text, the tool calls are those made, in order, from the
  matches of the pattern (from \<^verbatim>\<open><tool_call>\<close> and an opening brace to the first closing
  brace that optional white space and \<^verbatim>\<open></tool_call>\<close> follow); a match whose body fails
  to parse is passed over, and the matches behind it are handled as if it were absent. The
  text content is the input without its \<^verbatim>\<open><tool_call>\<close> blocks, trimmed, and null when
  nothing is left: a block that starts at the first opening tag and ends at the first closing
  tag behind it is dropped and the removal goes on behind it, and a text without opening tag
  is kept. The input \<^verbatim>\<open><tool_call>{not json}</tool_call> real text\<close> gives no tool call
  and the text content \<^verbatim>\<open>real text\<close>.
\<close>

theorem parseToolCalls_matches:
  "toolCalls (fst (parseToolCalls t rt)) = fst (calls_from (regex_matches t) rt)
   \<and> (\<forall>bs1 b bs2 e. regex_matches t = bs1 @ b # bs2 \<and> JSON_parse b = Inl e \<longrightarrow>
         toolCalls (fst (parseToolCalls t rt)) = fst (calls_from (bs1 @ bs2) rt))
   \<and> textContent (fst (parseToolCalls t rt))
       = (if trim (strip_blocks t) = [] then None else Some (trim (strip_blocks t)))
   \<and> (\<forall>pre body post.
         t = pre @ OPEN_TAG @ body @ CLOSE_TAG @ post
         \<and> absent_before OPEN_TAG (length pre) t
         \<and> absent_before CLOSE_TAG (length body) (body @ CLOSE_TAG @ post) \<longrightarrow>
         strip_blocks t = pre @ strip_blocks post)
   \<and> (absent_before OPEN_TAG (length t) t \<longrightarrow> strip_blocks t = t)
   \<and> fst (parseToolCalls ''<tool_call>{not json}</tool_call> real text'' rt)
       = \<lparr>toolCalls = [], textContent = Some ''real text''\<rparr>"
proof -
  have calls: "toolCalls (fst (parseToolCalls t rt)) = fst (calls_from (regex_matches t) rt)"
    by (simp add: parseToolCalls_def tool_call_loop_matches Let_def split: prod.splits)
  have skip: "\<forall>bs1 b bs2 e. regex_matches t = bs1 @ b # bs2 \<and> JSON_parse b = Inl e \<longrightarrow>
         toolCalls (fst (parseToolCalls t rt)) = fst (calls_from (bs1 @ bs2) rt)"
    using calls by (auto simp: calls_from_skip)
  have content: "textContent (fst (parseToolCalls t rt))
       = (if trim (strip_blocks t) = [] then None else Some (trim (strip_blocks t)))"
    by (simp add: parseToolCalls_def Let_def split: prod.splits)
  have block: "\<forall>pre body post.
         t = pre @ OPEN_TAG @ body @ CLOSE_TAG @ post
         \<and> absent_before OPEN_TAG (length pre) t
         \<and> absent_before CLOSE_TAG (length body) (body @ CLOSE_TAG @ post) \<longrightarrow>
         strip_blocks t = pre @ strip_blocks post"
    using strip_blocks_block by blast
  have none: "absent_before OPEN_TAG (length t) t \<longrightarrow> strip_blocks t = t"
    using strip_blocks_no_open by blast
  have m: "regex_matches ''<tool_call>{not json}</tool_call> real text'' = [''{not json}'']"
    by code_simp
  have p: "JSON_parse ''{not json}'' = Inl SyntaxError" by code_simp
  have s: "trim (strip_blocks ''<tool_call>{not json}</tool_call> real text'') = ''real text''"
    by code_simp
  have l: "tool_call_loop ''<tool_call>{not json}</tool_call> real text'' rt = ([], rt)"
    by (simp only: tool_call_loop_matches m calls_from.simps p and_then_def sum.case)
  have ne: "''real text'' \<noteq> []" by simp
  have ex: "fst (parseToolCalls ''<tool_call>{not json}</tool_call> real text'' rt)
       = \<lparr>toolCalls = [], textContent = Some ''real text''\<rparr>"
    by (simp only: parseToolCalls_def l s Let_def prod.case fst_conv ne if_False)
  from calls skip content block none ex show ?thesis by (intro conjI)
qed

theorem parseToolCalls_matches_witness:
  \<open>regex_matches ''<tool_call>{"a":}</tool_call> x <tool_call>{"name":"f"}</tool_call>''
     = [] @ ''{"a":}'' # [''{"name":"f"}'']
   \<and> JSON_parse ''{"a":}'' = Inl SyntaxError
   \<and> map call_name (toolCalls (fst (parseToolCalls
         ''<tool_call>{"a":}</tool_call> x <tool_call>{"name":"f"}</tool_call>'' sample_runtime)))
       = [Some (JStr ''f'')]
   \<and> strip_blocks ''<tool_call>{"a":}</tool_call> x <tool_call>{"name":"f"}</tool_call>''
       = '' x ''\<close>
proof -
  let ?t = \<open>''<tool_call>{"a":}</tool_call> x <tool_call>{"name":"f"}</tool_call>''\<close>
  have m: \<open>regex_matches ?t = [] @ ''{"a":}'' # [''{"name":"f"}'']\<close> by code_simp
  have p: \<open>JSON_parse ''{"a":}'' = Inl SyntaxError\<close> by code_simp
  have c: \<open>map call_name (fst (calls_from ([] @ [''{"name":"f"}'']) sample_runtime))
      = [Some (JStr ''f'')]\<close> by code_simp
  have d: \<open>?t = [] @ OPEN_TAG @ ''{"a":}'' @ CLOSE_TAG
      @ '' x <tool_call>{"name":"f"}</tool_call>''\<close>
    by (simp add: OPEN_TAG_def CLOSE_TAG_def)
  have a1: "absent_before OPEN_TAG (length ([] :: string)) ?t"
    by (simp add: absent_before_def)
  have a2: \<open>absent_before CLOSE_TAG (length ''{"a":}'')
      (''{"a":}'' @ CLOSE_TAG @ '' x <tool_call>{"name":"f"}</tool_call>'')\<close>
    unfolding absent_before_def CLOSE_TAG_def
    by (simp add: less_Suc_eq) 
  have s: \<open>strip_blocks '' x <tool_call>{"name":"f"}</tool_call>'' = '' x ''\<close> by code_simp
  from parseToolCalls_matches [of ?t sample_runtime] m p
  have "toolCalls (fst (parseToolCalls ?t sample_runtime))
      = fst (calls_from ([] @ [''{\"name\":\"f\"}'']) sample_runtime)"
    by blast
  moreover from parseToolCalls_matches [of ?t sample_runtime] d a1 a2
  have "strip_blocks ?t = [] @ strip_blocks '' x <tool_call>{\"name\":\"f\"}</tool_call>''"
    by blast
  ultimately show ?thesis using m p c s by simp
qed

text \<open>
  C6, as stated: every well-formed block behind a malformed one would be honoured. A block
  whose body has no closing brace before its closing tag does not end the match: the match
  runs on to the closing brace of the next block, the whole fails to parse, and the
  well-formed block is lost with it.
\<close>

theorem swallowed_block_counterexample:
  \<open>tool_call_blocks swallowed_block_text = [''{bad'', ''{"name":"f","arguments":{}}'']
   \<and> JSON_parse ''{bad'' = Inl SyntaxError
   \<and> JSON_parse ''{"name":"f","arguments":{}}''
       = Inr (JObj [(''name'', JStr ''f''), (''arguments'', JObj [])])
   \<and> map call_name (toolCalls (fst (parseToolCalls
         ''<tool_call>{"name":"f","arguments":{}}</tool_call>'' sample_runtime)))
       = [Some (JStr ''f'')]
   \<and> toolCalls (fst (parseToolCalls swallowed_block_text sample_runtime)) = []
   \<and> regex_matches swallowed_block_text
       = [''{bad</tool_call><tool_call>{"name":"f","arguments":{}}'']\<close>
  by code_simp

section \<open>Model resolution: results\<close>

lemma MODEL_MAP_range:
  "map_of MODEL_MAP k = Some a \<Longrightarrow> a \<in> {''opus'', ''sonnet'', ''haiku''}"
  by (auto simp: MODEL_MAP_def split: if_splits)

lemma strip_provider_append:
  "p \<in> {''claude-code-cli'', ''openai''} \<Longrightarrow> strip_provider (p @ ''/'' @ name) = name"
  by (auto simp: strip_provider_def)

lemma strip_provider_other:
  "\<not> prefix ''claude-code-cli/'' model \<Longrightarrow> \<not> prefix ''openai/'' model \<Longrightarrow>
   strip_provider model = model"
  by (simp add: strip_provider_def)

text \<open>
  C3, as stated: a model string with an unknown provider prefix would resolve to the alias of
  the name behind the slash. The code strips the two providers of its pattern only, so
  \<^verbatim>\<open>anthropic/claude-sonnet-4\<close> resolves to the default alias although the table maps
  \<^verbatim>\<open>claude-sonnet-4\<close> to \<^verbatim>\<open>sonnet\<close>.
\<close>

theorem extractModel_unknown_prefix_counterexample:
  "extractModel ''anthropic/claude-sonnet-4'' = Alias ''opus''
   \<and> extractModel_spec ''anthropic/claude-sonnet-4'' = ''sonnet''
   \<and> map_of MODEL_MAP ''anthropic/claude-sonnet-4'' = None
   \<and> map_of MODEL_MAP ''claude-sonnet-4'' = Some ''sonnet''"
  by (simp add: extractModel_def extractModel_spec_def MODEL_MAP_get_def MODEL_MAP_def
      Object_prototype_members_def strip_provider_def strip_any_prefix_def)

text \<open>
  C3, amended: for every model string that does not name a member inherited from
  \<^verbatim>\<open>Object.prototype\<close> (before and after stripping), \<^verbatim>\<open>extractModel\<close> returns the
  alias of the table, one of opus, sonnet and haiku, when the string is in the table; when
  the string is not in the table and is \<^verbatim>\<open>claude-code-cli/<name>\<close> or
  \<^verbatim>\<open>openai/<name>\<close> with \<^verbatim>\<open><name>\<close> in the table, it returns the alias of
  \<^verbatim>\<open><name>\<close>; when neither the string nor its stripped form is in the table, and in
  particular when it carries no such prefix, it returns opus.
\<close>

theorem extractModel_resolution:
  assumes "model \<notin> set Object_prototype_members"
    and "strip_provider model \<notin> set Object_prototype_members"
  shows "(\<forall>a. map_of MODEL_MAP model = Some a \<longrightarrow>
            extractModel model = Alias a \<and> a \<in> {''opus'', ''sonnet'', ''haiku''})
       \<and> (\<forall>p name a. model = p @ ''/'' @ name \<and> p \<in> {''claude-code-cli'', ''openai''}
            \<and> map_of MODEL_MAP model = None \<and> map_of MODEL_MAP name = Some a \<longrightarrow>
            extractModel model = Alias a \<and> a \<in> {''opus'', ''sonnet'', ''haiku''})
       \<and> (map_of MODEL_MAP model = None \<and> map_of MODEL_MAP (strip_provider model) = None \<longrightarrow>
            extractModel model = Alias ''opus'')
       \<and> (map_of MODEL_MAP model = None \<and> \<not> prefix ''claude-code-cli/'' model
            \<and> \<not> prefix ''openai/'' model \<longrightarrow> extractModel model = Alias ''opus'')"
proof (intro conjI allI impI)
  fix a assume "map_of MODEL_MAP model = Some a"
  then show "extractModel model = Alias a"
    by (simp add: extractModel_def MODEL_MAP_get_def)
next
  fix a assume "map_of MODEL_MAP model = Some a"
  then show "a \<in> {''opus'', ''sonnet'', ''haiku''}" by (rule MODEL_MAP_range)
next
  fix p name a
  assume h: "model = p @ ''/'' @ name \<and> p \<in> {''claude-code-cli'', ''openai''}
            \<and> map_of MODEL_MAP model = None \<and> map_of MODEL_MAP name = Some a"
  then have s: "strip_provider model = name"
    using strip_provider_append by blast
  from h have m: "map_of MODEL_MAP model = None" and n: "map_of MODEL_MAP name = Some a"
    by blast+
  from m assms(1) have "MODEL_MAP_get model = None" by (simp add: MODEL_MAP_get_def)
  moreover from n have "MODEL_MAP_get name = Some (Alias a)" by (simp add: MODEL_MAP_get_def)
  ultimately show "extractModel model = Alias a"
    using s by (simp add: extractModel_def)
  from h show "a \<in> {''opus'', ''sonnet'', ''haiku''}" using MODEL_MAP_range by blast
next
  assume "map_of MODEL_MAP model = None \<and> map_of MODEL_MAP (strip_provider model) = None"
  with assms show "extractModel model = Alias ''opus''"
    by (simp add: extractModel_def MODEL_MAP_get_def)
next
  assume h: "map_of MODEL_MAP model = None \<and> \<not> prefix ''claude-code-cli/'' model
            \<and> \<not> prefix ''openai/'' model"
  then have "strip_provider model = model" by (simp add: strip_provider_other)
  with h assms show "extractModel model = Alias ''opus''"
    by (simp add: extractModel_def MODEL_MAP_get_def)
qed

theorem extractModel_resolution_witness:
  "''claude-code-cli/claude-sonnet-4-5'' \<notin> set Object_prototype_members
   \<and> strip_provider ''claude-code-cli/claude-sonnet-4-5'' \<notin> set Object_prototype_members
   \<and> map_of MODEL_MAP ''claude-code-cli/claude-sonnet-4-5'' = None
   \<and> extractModel ''claude-code-cli/claude-sonnet-4-5'' = Alias ''sonnet''"
proof -
  let ?m = "''claude-code-cli/claude-sonnet-4-5''"
  have h1: "?m \<notin> set Object_prototype_members"
    by (simp add: Object_prototype_members_def)
  have h2: "strip_provider ?m \<notin> set Object_prototype_members"
    by (simp add: Object_prototype_members_def strip_provider_def)
  have m: "map_of MODEL_MAP ?m = None" by (simp add: MODEL_MAP_def)
  have n: "map_of MODEL_MAP ''claude-sonnet-4-5'' = Some ''sonnet''" by (simp add: MODEL_MAP_def)
  have f: "?m = ''claude-code-cli'' @ ''/'' @ ''claude-sonnet-4-5''" by simp
  from extractModel_resolution [OF h1 h2]
  have "\<forall>p name a. ?m = p @ ''/'' @ name \<and> p \<in> {''claude-code-cli'', ''openai''}
            \<and> map_of MODEL_MAP ?m = None \<and> map_of MODEL_MAP name = Some a \<longrightarrow>
            extractModel ?m = Alias a \<and> a \<in> {''opus'', ''sonnet'', ''haiku''}"
    by blast
  then have "?m = ''claude-code-cli'' @ ''/'' @ ''claude-sonnet-4-5''
            \<and> ''claude-code-cli'' \<in> {''claude-code-cli'', ''openai''}
            \<and> map_of MODEL_MAP ?m = None \<and> map_of MODEL_MAP ''claude-sonnet-4-5'' = Some ''sonnet'' \<longrightarrow>
            extractModel ?m = Alias ''sonnet'' \<and> ''sonnet'' \<in> {''opus'', ''sonnet'', ''haiku''}"
    by blast
  with f m n have "extractModel ?m = Alias ''sonnet''" by simp
  with h1 h2 m show ?thesis by simp
qed

section \<open>Prompt synthesis: results\<close>

subsection \<open>An arguments string that is not JSON\<close>

lemma tool_call_block_throws:
  assumes "js_get (Some tc) ''function'' = Inr fn"
    and "js_get fn ''arguments'' = Inr (Some (JStr s))"
    and "isl (JSON_parse s)"
  shows "isl (tool_call_block tc)"
  unfolding tool_call_block_def
proof (rule isl_and_thenI, rule isl_and_thenI, rule isl_and_thenI, rule isl_and_thenI,
    rule and_then_isl)
  fix tid fn' name arguments
  assume "js_get (Some tc) ''function'' = Inr fn'" and "js_get fn' ''arguments'' = Inr arguments"
  with assms(1,2) have "arguments = Some (JStr s)" by simp
  with assms(3) show "isl (JSON_parse (to_string arguments))" by (simp add: to_string_def)
qed

lemma assistant_part_throws:
  assumes "js_get (Some msg) ''tool_calls'' = Inr (Some (JArr tcs))"
    and "tc \<in> set tcs" and "isl (tool_call_block tc)"
  shows "isl (assistant_part msg)"
proof -
  from assms(2) obtain t ts where tcs: "tcs = t # ts" by (cases tcs) auto
  have blocks: "isl (each tool_call_block (t # ts))"
    using assms(2,3) unfolding tcs by (rule each_throws)
  from assms(1) obtain content where c: "js_get (Some msg) ''content'' = Inr content"
    by (cases msg) auto
  have "assistant_part msg =
      and_then (if truthy content
                then and_then (extractText content) (\<lambda>text. Inr (text @ ''\<newline>''))
                else Inr []) (\<lambda>lead.
      and_then (each tool_call_block (t # ts)) (\<lambda>blocks.
        Inr (''<previous_response>\<newline>'' @ trim (lead @ concat blocks)
             @ ''\<newline></previous_response>\<newline>'')))"
    unfolding assistant_part_def assms(1) c tcs and_then_Inr by (simp only: option.case json.case list.case)
  also have "isl \<dots>" using blocks by (intro isl_and_then_second)
  finally show ?thesis .
qed

lemma tool_run_roles:
  "tool_run ms = Inr n \<Longrightarrow> m \<in> set (take n ms) \<Longrightarrow> js_get (Some m) ''role'' = Inr (Some (JStr ''tool''))"
proof (induction ms arbitrary: n)
  case Nil
  then show ?case by simp
next
  case (Cons a ms)
  show ?case
  proof (cases "js_get (Some a) ''role''")
    case (Inl e)
    with Cons.prems show ?thesis by (simp add: and_then_def)
  next
    case (Inr role)
    show ?thesis
    proof (cases "role = Some (JStr ''tool'')")
      case False
      with Inr Cons.prems show ?thesis by (simp add: and_then_def)
    next
      case True
      with Inr Cons.prems obtain k where k: "tool_run ms = Inr k" "n = Suc k"
        by (cases "tool_run ms") (auto simp: and_then_def)
      with Cons.prems(2) have "m = a \<or> m \<in> set (take k ms)" by auto
      with Cons.IH [OF k(1)] Inr True show ?thesis by auto
    qed
  qed
qed

lemma message_parts_throws:
  assumes "js_get (Some msg) ''role'' = Inr (Some (JStr ''assistant''))"
    and "isl (assistant_part msg)"
  shows "msg \<in> set messages \<Longrightarrow> isl (message_parts messages)"
proof (induction "length messages" arbitrary: messages rule: less_induct)
  case less
  from less.prems obtain m rest where ms: "messages = m # rest" by (cases messages) auto
  have IH: "\<And>xs. length xs \<le> length rest \<Longrightarrow> msg \<in> set xs \<Longrightarrow> isl (message_parts xs)"
    using less.hyps ms by simp
  show ?case
  proof (cases "m = msg")
    case True
    with assms show ?thesis
      by (simp add: ms message_parts.simps(2) and_then_Inr and_then_isl)
  next
    case False
    with less.prems ms have in_rest: "msg \<in> set rest" by simp
    then have rest: "isl (message_parts rest)" by (simp add: IH)
    have dropped: "isl (message_parts (drop n rest))" if "tool_run rest = Inr n" for n
    proof -
      have "msg \<notin> set (take n rest)"
        using tool_run_roles [OF that, of msg] assms(1) by auto
      with in_rest have "msg \<in> set (drop n rest)"
        by (metis Un_iff append_take_drop_id set_append)
      then show ?thesis by (simp add: IH)
    qed
    show ?thesis
      unfolding ms message_parts.simps(2)
    proof (rule isl_and_thenI)
      fix role
      consider (sys) "role = Some (JStr ''system'')" | (usr) "role = Some (JStr ''user'')"
        | (asst) "role = Some (JStr ''assistant'')" | (tool) "role = Some (JStr ''tool'')"
        | (other) "role \<noteq> Some (JStr ''system'')" "role \<noteq> Some (JStr ''user'')"
            "role \<noteq> Some (JStr ''assistant'')" "role \<noteq> Some (JStr ''tool'')"
        by blast
      then show "isl (if role = Some (JStr ''system'') then
            and_then (js_get (Some m) ''content'') (\<lambda>content.
            and_then (extractText content) (\<lambda>text.
            and_then (message_parts rest) (\<lambda>parts.
              Inr ((''<system>\<newline>'' @ text @ ''\<newline></system>\<newline>'') # parts))))
          else if role = Some (JStr ''user'') then
            and_then (js_get (Some m) ''content'') (\<lambda>content.
            and_then (extractText content) (\<lambda>text.
            and_then (message_parts rest) (\<lambda>parts. Inr (text # parts))))
          else if role = Some (JStr ''assistant'') then
            and_then (assistant_part m) (\<lambda>part.
            and_then (message_parts rest) (\<lambda>parts. Inr (part # parts)))
          else if role = Some (JStr ''tool'') then
            and_then (tool_run rest) (\<lambda>n.
            and_then (formatToolResults (m # take n rest)) (\<lambda>part.
            and_then (message_parts (drop n rest)) (\<lambda>parts. Inr (part # parts))))
          else message_parts rest)"
      proof cases
        case sys
        then show ?thesis using rest by simp (intro isl_and_then_third)
      next
        case usr
        then show ?thesis using rest by simp (intro isl_and_then_third)
      next
        case asst
        then show ?thesis using rest by simp (intro isl_and_then_second)
      next
        case tool
        then show ?thesis using dropped by simp (intro isl_and_then_third)
      next
        case other
        then show ?thesis using rest by simp
      qed
    qed
  qed
qed

lemma isl_message_parts_prompt:
  "isl (message_parts messages) \<Longrightarrow> isl (messagesToPrompt messages tools)"
  unfolding messagesToPrompt_def by (intro isl_and_thenI and_then_isl)


lemma openaiToCli_throws:
  "isl (messagesToPrompt (req_messages request) (effective_tools request)) \<Longrightarrow>
   isl (openaiToCli request)"
  unfolding openaiToCli_def Let_def by (rule and_then_isl)

text \<open>
  C10: when the messages hold an assistant message (role \<^verbatim>\<open>assistant\<close>) whose
  \<^verbatim>\<open>tool_calls\<close> array has an entry whose \<^verbatim>\<open>function.arguments\<close> is a string that
  \<^verbatim>\<open>JSON.parse\<close> rejects, \<^verbatim>\<open>messagesToPrompt\<close> throws for every value of
  \<^verbatim>\<open>tools\<close>, \<^verbatim>\<open>openaiToCli\<close> throws on every request with these messages, and
  \<^verbatim>\<open>handleChatCompletions\<close> answers a body with these messages with status 500 and an
  envelope of type \<^verbatim>\<open>server_error\<close>, not with the 400 of the validation.
\<close>

theorem invalid_arguments_throw:
  assumes "msg \<in> set messages"
    and "js_get (Some msg) ''role'' = Inr (Some (JStr ''assistant''))"
    and "js_get (Some msg) ''tool_calls'' = Inr (Some (JArr tcs))"
    and "tc \<in> set tcs"
    and "js_get (Some tc) ''function'' = Inr fn"
    and "js_get fn ''arguments'' = Inr (Some (JStr s))"
    and "JSON_parse s = Inl e"
  shows "isl (messagesToPrompt messages tools)
       \<and> (req_messages request = messages \<longrightarrow> isl (openaiToCli request))
       \<and> (js_get (Some body) ''messages'' = Inr (Some (JArr messages)) \<longrightarrow>
            (\<exists>err. handleChatCompletions body = Reply 500 (server_error (error_message err))))"
proof -
  from assms(7) have "isl (JSON_parse s)" by simp
  with assms(5,6) have "isl (tool_call_block tc)" by (rule tool_call_block_throws)
  with assms(3,4) have "isl (assistant_part msg)" by (rule assistant_part_throws)
  with assms(2) have parts: "isl (message_parts messages)"
    using assms(1) by (rule message_parts_throws)
  then have prompt: "isl (messagesToPrompt messages tls)" for tls
    by (rule isl_message_parts_prompt)
  have cli: "isl (openaiToCli r)" if "req_messages r = messages" for r
    using prompt [of "effective_tools r"] that by (simp add: openaiToCli_throws)
  have reply: "\<exists>err. handleChatCompletions body = Reply 500 (server_error (error_message err))"
    if b: "js_get (Some body) ''messages'' = Inr (Some (JArr messages))"
  proof -
    from b obtain kvs where body: "body = JObj kvs" by (cases body) auto
    from assms(1) obtain m ms where ms: "messages = m # ms" by (cases messages) auto
    have "isl (openaiToCli (request_of body (m # ms)))"
      by (rule cli) (simp add: request_of_def ms)
    then obtain err where "openaiToCli (request_of body (m # ms)) = Inl err"
      by (cases "openaiToCli (request_of body (m # ms))") auto
    with b show ?thesis
      by (auto simp: handleChatCompletions_def body ms)
  qed
  from prompt cli reply show ?thesis by blast
qed

theorem invalid_arguments_throw_witness:
  "JSON_parse ''{not json}'' = Inl SyntaxError
   \<and> isl (messagesToPrompt [bad_call_message] None)
   \<and> handleChatCompletions bad_call_body = Reply 500 (server_error ''SyntaxError'')"
proof -
  have p: "JSON_parse ''{not json}'' = Inl SyntaxError" by code_simp
  have h: "handleChatCompletions bad_call_body = Reply 500 (server_error ''SyntaxError'')"
    by code_simp
  have "isl (messagesToPrompt [bad_call_message] None)"
    using invalid_arguments_throw [of bad_call_message "[bad_call_message]"
        "[JObj [(''id'', JStr ''call_1''), (''type'', JStr ''function''),
                (''function'', JObj [(''name'', JStr ''get_weather''),
                                     (''arguments'', JStr ''{not json}'')])]]"
        "JObj [(''id'', JStr ''call_1''), (''type'', JStr ''function''),
                (''function'', JObj [(''name'', JStr ''get_weather''),
                                     (''arguments'', JStr ''{not json}'')])]"
        "Some (JObj [(''name'', JStr ''get_weather''), (''arguments'', JStr ''{not json}'')])"
        "''{not json}''" SyntaxError None] p
    by (simp add: bad_call_message_def)
  with p h show ?thesis by simp
qed

subsection \<open>What the prompt depends on\<close>

text \<open>
  C7, as stated for \<^verbatim>\<open>openaiToCli\<close>: two requests with equal messages and equal tools
  would get equal prompts. With \<^verbatim>\<open>tool_choice\<close> set to \<^verbatim>\<open>"none"\<close> the tools are not
  passed on, and the prompt is the user text alone; without it the prompt starts with the
  tool manifest.
\<close>

theorem prompt_depends_on_tool_choice_counterexample:
  "req_messages request_with_tools = req_messages request_choice_none
   \<and> req_tools request_with_tools = req_tools request_choice_none
   \<and> prompt_of (openaiToCli request_choice_none) = Some ''hi''
   \<and> map_option (take 17) (prompt_of (openaiToCli request_with_tools))
       = Some ''<tools_available>''
   \<and> prompt_of (openaiToCli request_with_tools) \<noteq> prompt_of (openaiToCli request_choice_none)"
  by code_simp

lemma openaiToCli_prompt:
  "prompt_of (openaiToCli request) = Some p \<Longrightarrow>
   messagesToPrompt (req_messages request) (effective_tools request) = Inr p"
  by (cases "messagesToPrompt (req_messages request) (effective_tools request)";
      cases "extractModel_of (req_model request)")
     (auto simp: openaiToCli_def prompt_of_def Let_def and_then_def)

text \<open>
  C7, amended: \<^verbatim>\<open>messagesToPrompt\<close> is a function of its two arguments, the messages and
  the tools it is given (the embedding gives it neither the clock nor the identifier source,
  as the source reads neither). For \<^verbatim>\<open>openaiToCli\<close>, two requests with equal
  \<^verbatim>\<open>messages\<close>, equal \<^verbatim>\<open>tools\<close> and equal \<^verbatim>\<open>tool_choice\<close> pass the same arguments to
  \<^verbatim>\<open>messagesToPrompt\<close>, and when both translations return their prompts are equal,
  whatever the other fields of the requests are.
\<close>

theorem openaiToCli_prompt_pure:
  assumes "req_messages r1 = req_messages r2"
    and "req_tools r1 = req_tools r2"
    and "req_tool_choice r1 = req_tool_choice r2"
  shows "messagesToPrompt (req_messages r1) (effective_tools r1)
           = messagesToPrompt (req_messages r2) (effective_tools r2)
       \<and> (\<forall>p1 p2. prompt_of (openaiToCli r1) = Some p1 \<and> prompt_of (openaiToCli r2) = Some p2
             \<longrightarrow> p1 = p2)"
proof -
  have "hasTools r1 = hasTools r2"
    unfolding hasTools_def assms(2,3) by (rule refl)
  then have "effective_tools r1 = effective_tools r2"
    unfolding effective_tools_def assms(2) by simp
  with assms(1) have eq: "messagesToPrompt (req_messages r1) (effective_tools r1)
      = messagesToPrompt (req_messages r2) (effective_tools r2)" by simp
  moreover have "p1 = p2"
    if "prompt_of (openaiToCli r1) = Some p1" and "prompt_of (openaiToCli r2) = Some p2"
    for p1 p2
    using openaiToCli_prompt [OF that(1)] openaiToCli_prompt [OF that(2)] eq by simp
  ultimately show ?thesis by blast
qed

theorem openaiToCli_prompt_pure_witness:
  "req_messages request_with_tools = req_messages request_other_fields
   \<and> req_tools request_with_tools = req_tools request_other_fields
   \<and> req_tool_choice request_with_tools = req_tool_choice request_other_fields
   \<and> req_model request_with_tools \<noteq> req_model request_other_fields
   \<and> messagesToPrompt (req_messages request_with_tools) (effective_tools request_with_tools)
       = messagesToPrompt (req_messages request_other_fields)
           (effective_tools request_other_fields)"
proof -
  have h1: "req_messages request_with_tools = req_messages request_other_fields"
    and h2: "req_tools request_with_tools = req_tools request_other_fields"
    and h3: "req_tool_choice request_with_tools = req_tool_choice request_other_fields"
    and h4: "req_model request_with_tools \<noteq> req_model request_other_fields"
    by (simp_all add: request_other_fields_def request_with_tools_def)
  from openaiToCli_prompt_pure [OF h1 h2 h3] h1 h2 h3 h4 show ?thesis by blast
qed

section \<open>Tool calls lowered and parsed back: results\<close>

subsection \<open>Where the lazy group can end\<close>

lemma close_tag_chars:
  "c \<in> set CLOSE_TAG \<longleftrightarrow> c \<in> set ''</tol_ca>''"
  by (simp add: CLOSE_TAG_def) blast


















subsection \<open>The pattern on a block and on the text before it\<close>














subsection \<open>The blocks of a message\<close>











subsection \<open>The prompt of the message\<close>






















subsection \<open>The round trip\<close>




section \<open>Response dispatcher: results\<close>

subsection \<open>Non-streaming mode\<close>

lemma nonstreaming_close_without_result:
  "json_calls (ns_res (handleNonStreamingResponse requestId (new_NonStreaming rt) (CloseEv code)))
     = [(500, Failure (server_error (exit_message code)))]"
  by (simp add: new_NonStreaming_def new_Response_def res_json_def res_status_def)

lemma nonstreaming_error_then_close:
  "json_calls (ns_res (foldl (handleNonStreamingResponse requestId) (new_NonStreaming rt)
      [ErrorEv message, CloseEv code]))
     = [(500, Failure (server_error message))]"
  by (simp add: new_NonStreaming_def new_Response_def res_json_def res_status_def)

text \<open>
  C4 at the input the claim names: the \<^verbatim>\<open>error\<close> event of a timeout, then the
  \<^verbatim>\<open>result\<close> event, then \<^verbatim>\<open>close\<close>. The \<^verbatim>\<open>error\<close> listener sends the 500 envelope;
  the \<^verbatim>\<open>close\<close> listener finds \<^verbatim>\<open>finalResult\<close> set and calls \<^verbatim>\<open>res.json\<close> a second
  time, without the test of \<^verbatim>\<open>headersSent\<close> that its other branch makes. The result
  is not suppressed: the second call raises.
\<close>

theorem nonstreaming_timeout_then_result:
  "json_calls (ns_res (foldl (handleNonStreamingResponse ''req'')
       (new_NonStreaming sample_runtime) timeout_then_result))
     = [(500, Failure (server_error ''Request timed out after 300000ms'')),
        (500, Completion
           \<lparr>cmpl_id = ''chatcmpl-req'', cmpl_object = ''chat.completion'',
            cmpl_created = 1700000000, cmpl_model = ''claude-sonnet-4'',
            cmpl_message = \<lparr>msg_role = ''assistant'', msg_content = Some ''hello'',
                             msg_tool_calls = None\<rparr>,
            cmpl_finish_reason = ''stop'',
            cmpl_usage = \<lparr>prompt_tokens = 3, completion_tokens = 5, total_tokens = 8\<rparr>\<rparr>)]
   \<and> raised (ns_res (foldl (handleNonStreamingResponse ''req'')
       (new_NonStreaming sample_runtime) timeout_then_result)) = 1"
  by code_simp

subsection \<open>Buffered replay\<close>













text \<open>
  C5 at the same input: one tool call is extracted from the chosen text, the streaming
  branch ends its chunks with \<^verbatim>\<open>tool_calls\<close>, and the JSON body of the non-streaming
  branch carries \<^verbatim>\<open>stop\<close>.
\<close>

theorem tool_aware_json_finish_reason:
  "length (toolCalls (fst (parseToolCalls
      (responseText (foldl (handleToolAwareResponse ''req'' False) (new_ToolAware sample_runtime)
         (butlast buffered_call_events))) sample_runtime))) = 1
   \<and> frame_finish_reasons (frames (ta_res (foldl (handleToolAwareResponse ''req'' True)
        (new_ToolAware sample_runtime) buffered_call_events))) = [''tool_calls'']
   \<and> body_finish_reasons (json_calls (ta_res (foldl (handleToolAwareResponse ''req'' False)
        (new_ToolAware sample_runtime) buffered_call_events))) = [''stop'']"
  by code_simp

section \<open>Subprocess driver: results\<close>

lemma first_call_settles:
  "driver_settled (driver_step (start_ok new_ClaudeSubprocess) c)"
  by (cases c)
     (auto simp: driver_settled_def start_ok_def new_ClaudeSubprocess_def kill_def
        timeout_expired_def clearTimeout_def process_kill_def signals_sent_def Let_def)

lemma settled_step: "driver_settled d \<Longrightarrow> driver_step d c = d"
  by (cases c) (auto simp: driver_settled_def kill_def timeout_expired_def)

lemma settled_run: "driver_settled d \<Longrightarrow> foldl driver_step d cs = d"
  by (induction cs) (auto simp: settled_step)

lemma first_signal:
  "signals_sent (driver_step (start_ok new_ClaudeSubprocess) c) =
     [case c of Kill (Some s) \<Rightarrow> s | _ \<Rightarrow> ''SIGTERM'']"
  by (cases c)
     (auto simp: start_ok_def new_ClaudeSubprocess_def kill_def timeout_expired_def
        clearTimeout_def process_kill_def signals_sent_def Let_def split: option.splits)

text \<open>
  C8: after a successful start, across any non-empty sequence of \<^verbatim>\<open>kill()\<close> calls and
  timer expiries, in any order, one signal has been sent to the child (the one of the first
  call: SIGTERM unless that \<^verbatim>\<open>kill\<close> named another), the timer is no longer pending,
  and a further \<^verbatim>\<open>kill()\<close> leaves the driver as it is.
\<close>

theorem kill_idempotent:
  assumes "calls \<noteq> []"
  shows "length (signals_sent (foldl driver_step (start_ok new_ClaudeSubprocess) calls)) = 1
       \<and> \<not> timer_pending (foldl driver_step (start_ok new_ClaudeSubprocess) calls)
       \<and> kill s (foldl driver_step (start_ok new_ClaudeSubprocess) calls)
           = foldl driver_step (start_ok new_ClaudeSubprocess) calls
       \<and> signals_sent (foldl driver_step (start_ok new_ClaudeSubprocess) calls)
           = [case hd calls of Kill (Some s) \<Rightarrow> s | _ \<Rightarrow> ''SIGTERM'']"
proof -
  from assms obtain c cs where calls: "calls = c # cs" by (cases calls) auto
  let ?d = "driver_step (start_ok new_ClaudeSubprocess) c"
  have st: "driver_settled ?d" by (rule first_call_settles)
  then have run: "foldl driver_step (start_ok new_ClaudeSubprocess) calls = ?d"
    by (simp add: calls settled_run)
  have "kill s ?d = ?d" using settled_step [OF st, of "Kill s"] by simp
  with st run first_signal [of c] show ?thesis
    by (simp add: driver_settled_def calls)
qed

theorem kill_idempotent_witness:
  "[Kill None, TimeoutExpired, Kill None] \<noteq> []
   \<and> signals_sent (foldl driver_step (start_ok new_ClaudeSubprocess)
        [Kill None, TimeoutExpired, Kill None]) = [''SIGTERM'']
   \<and> \<not> timer_pending (foldl driver_step (start_ok new_ClaudeSubprocess)
        [Kill None, TimeoutExpired, Kill None])"
  using kill_idempotent [of "[Kill None, TimeoutExpired, Kill None]" None]
  by simp

section \<open>Session store: results\<close>

lemma getOrCreate_clock: "clock (snd (snd (getOrCreate cid m st))) = clock (snd st)"
  by (cases "sessions (fst st) cid")
     (simp_all add: getOrCreate_def Let_def Date_now_def uuidv4_def split: prod.splits)

lemma getOrCreate_ticks: "ticks (snd st) < ticks (snd (snd (getOrCreate cid m st)))"
  by (cases "sessions (fst st) cid")
     (simp_all add: getOrCreate_def Let_def Date_now_def uuidv4_def split: prod.splits)

lemma getOrCreate_reading:
  "\<exists>e. sessions (fst (snd (getOrCreate cid m st))) cid = Some e
      \<and> claudeSessionId e = fst (getOrCreate cid m st)
      \<and> lastUsedAt e = clock (snd st) (ticks (snd (snd (getOrCreate cid m st))) - 1)"
  by (cases "sessions (fst st) cid")
     (simp_all add: getOrCreate_def Let_def Date_now_def uuidv4_def split: prod.splits)

lemma getOrCreate_existing_reading:
  assumes "sessions (fst st) cid = Some e"
  shows "fst (getOrCreate cid m st) = claudeSessionId e
     \<and> (\<exists>e'. sessions (fst (snd (getOrCreate cid m st))) cid = Some e'
           \<and> claudeSessionId e' = claudeSessionId e
           \<and> lastUsedAt e' = clock (snd st) (ticks (snd st)))"
  using assms by (simp add: getOrCreate_def Let_def Date_now_def split: prod.splits)

lemma getOrCreate_other_keeps:
  assumes "sessions (fst st) cid = Some e"
  shows "\<exists>e'. sessions (fst (snd (getOrCreate cid' m st))) cid = Some e'
           \<and> claudeSessionId e' = claudeSessionId e"
proof (cases "cid' = cid")
  case True
  with getOrCreate_existing_reading [OF assms, of m] show ?thesis by blast
next
  case False
  with assms show ?thesis
    by (cases "sessions (fst st) cid'")
       (simp_all add: getOrCreate_def Let_def Date_now_def uuidv4_def split: prod.splits)
qed

lemma getOrCreate_calls_id:
  "sessions (fst st) cid = Some e \<Longrightarrow>
   \<exists>e'. sessions (fst (getOrCreate_calls cs st)) cid = Some e'
      \<and> claudeSessionId e' = claudeSessionId e"
proof (induction cs st arbitrary: e rule: getOrCreate_calls.induct)
  case (1 st)
  then show ?case by simp
next
  case (2 cid' m cs st)
  from getOrCreate_other_keeps [OF 2(2), of cid' m] obtain e1 where
    e1: "sessions (fst (snd (getOrCreate cid' m st))) cid = Some e1"
    and i1: "claudeSessionId e1 = claudeSessionId e" by blast
  from 2(1) [OF e1] i1 show ?case by simp
qed

lemma getOrCreate_calls_clock: "clock (snd (getOrCreate_calls cs st)) = clock (snd st)"
  by (induction cs st rule: getOrCreate_calls.induct) (simp_all add: getOrCreate_clock)

lemma getOrCreate_calls_ticks: "ticks (snd st) \<le> ticks (snd (getOrCreate_calls cs st))"
proof (induction cs st rule: getOrCreate_calls.induct)
  case (1 st)
  then show ?case by simp
next
  case (2 cid m cs st)
  from getOrCreate_ticks [of st cid m] 2 show ?case by simp
qed

text \<open>
  C9, as stated: the \<^verbatim>\<open>lastUsedAt\<close> of the stored entry would never decrease from one
  \<^verbatim>\<open>getOrCreate\<close> call to the next. \<^verbatim>\<open>lastUsedAt\<close> is what \<^verbatim>\<open>Date.now()\<close> returns,
  and the wall clock may be set back between two calls: with the readings 1000, 999, 998
  the two calls return the same session id, and \<^verbatim>\<open>lastUsedAt\<close> is 999 after the first
  and 998 after the second.
\<close>

theorem clock_steps_back_counterexample:
  "fst (getOrCreate ''conv'' None (empty_manager, backward_runtime)) = ''uuid-''
   \<and> fst (getOrCreate ''conv'' None
        (snd (getOrCreate ''conv'' None (empty_manager, backward_runtime)))) = ''uuid-''
   \<and> map_option lastUsedAt
        (sessions (fst (snd (getOrCreate ''conv'' None (empty_manager, backward_runtime))))
           ''conv'') = Some 999
   \<and> map_option lastUsedAt
        (sessions (fst (snd (getOrCreate ''conv'' None
           (snd (getOrCreate ''conv'' None (empty_manager, backward_runtime))))))
           ''conv'') = Some 998"
  by (simp add: getOrCreate_def empty_manager_def backward_runtime_def Let_def Date_now_def
        uuidv4_def)

text \<open>
  C9, amended: for every conversation id, every store and every clock, a
  \<^verbatim>\<open>getOrCreate(id)\<close> call and any later one (with any \<^verbatim>\<open>getOrCreate\<close> calls in
  between, none when \<open>others\<close> is empty) return the same upstream session id, and the
  stored entry keeps that id. After each of the two calls the \<^verbatim>\<open>lastUsedAt\<close> of the entry
  is the reading of \<^verbatim>\<open>Date.now()\<close> that the call took, the later call's reading being a
  later one (\<open>k1 < k2\<close>): \<^verbatim>\<open>lastUsedAt\<close> does not decrease from the one call to the
  other exactly when the clock does not between these two readings.
\<close>

theorem getOrCreate_same_id_latest_reading:
  "fst (getOrCreate cid m2 (getOrCreate_calls others (snd (getOrCreate cid m1 st))))
     = fst (getOrCreate cid m1 st)
   \<and> (\<exists>e1 e2 k1 k2.
        sessions (fst (snd (getOrCreate cid m1 st))) cid = Some e1
      \<and> sessions (fst (snd (getOrCreate cid m2
             (getOrCreate_calls others (snd (getOrCreate cid m1 st)))))) cid = Some e2
      \<and> claudeSessionId e1 = fst (getOrCreate cid m1 st)
      \<and> claudeSessionId e2 = fst (getOrCreate cid m1 st)
      \<and> Suc k1 = ticks (snd (snd (getOrCreate cid m1 st)))
      \<and> k2 = ticks (snd (getOrCreate_calls others (snd (getOrCreate cid m1 st))))
      \<and> k1 < k2
      \<and> lastUsedAt e1 = clock (snd st) k1
      \<and> lastUsedAt e2 = clock (snd st) k2)"
proof -
  let ?s1 = "snd (getOrCreate cid m1 st)"
  let ?s' = "getOrCreate_calls others ?s1"
  from getOrCreate_reading [of cid m1 st] obtain e1 where
    e1: "sessions (fst ?s1) cid = Some e1" "claudeSessionId e1 = fst (getOrCreate cid m1 st)"
      "lastUsedAt e1 = clock (snd st) (ticks (snd ?s1) - 1)" by blast
  from getOrCreate_calls_id [OF e1(1), of others] obtain e' where
    e': "sessions (fst ?s') cid = Some e'" "claudeSessionId e' = claudeSessionId e1" by blast
  from getOrCreate_existing_reading [OF e'(1), of m2] obtain e2 where
    r: "fst (getOrCreate cid m2 ?s') = claudeSessionId e'"
    and e2: "sessions (fst (snd (getOrCreate cid m2 ?s'))) cid = Some e2"
      "claudeSessionId e2 = claudeSessionId e'"
      "lastUsedAt e2 = clock (snd ?s') (ticks (snd ?s'))" by blast
  have c: "clock (snd ?s') = clock (snd st)"
    by (simp add: getOrCreate_calls_clock getOrCreate_clock)
  have t1: "0 < ticks (snd ?s1)" using getOrCreate_ticks [of st cid m1] by simp
  have t2: "ticks (snd ?s1) \<le> ticks (snd ?s')" by (rule getOrCreate_calls_ticks)
  obtain k1 where k1: "Suc k1 = ticks (snd ?s1)" using t1 by (cases "ticks (snd ?s1)") simp_all
  have l1: "lastUsedAt e1 = clock (snd st) k1" using e1(3) k1 [symmetric] by simp
  have lt: "k1 < ticks (snd ?s')" using k1 t2 by simp
  show ?thesis
  proof (intro conjI exI)
    show "fst (getOrCreate cid m2 ?s') = fst (getOrCreate cid m1 st)"
      using r e'(2) e1(2) by simp
    show "sessions (fst ?s1) cid = Some e1" by (rule e1(1))
    show "sessions (fst (snd (getOrCreate cid m2 ?s'))) cid = Some e2" by (rule e2(1))
    show "claudeSessionId e1 = fst (getOrCreate cid m1 st)" by (rule e1(2))
    show "claudeSessionId e2 = fst (getOrCreate cid m1 st)" using e2(2) e'(2) e1(2) by simp
    show "Suc k1 = ticks (snd ?s1)" by (rule k1)
    show "ticks (snd ?s') = ticks (snd ?s')" by (rule refl)
    show "k1 < ticks (snd ?s')" by (rule lt)
    show "lastUsedAt e1 = clock (snd st) k1" by (rule l1)
    show "lastUsedAt e2 = clock (snd st) (ticks (snd ?s'))" using e2(3) c by simp
  qed
qed

end
